theory Spec2Isabelle
  imports Main "HOL-Library.Word" "HOL-Library.Sublist"
begin

section \<open>Values shared by the whole package\<close>

text \<open>
  A Go string handed to \<open>strings.Fields\<close> is modelled by the sequence of runes that
  ranging over it yields (a malformed byte yields U+FFFD, which is no space); it is empty
  exactly when the Go string has length 0. Text that is scanned and matched is a byte
  string. A \<open>time.Duration\<close> is a signed 64-bit count of nanoseconds; an instant is
  the number of nanoseconds since the zero \<open>time.Time\<close>, so that \<open>IsZero\<close> is
  \<open>t = 0\<close>, and \<open>Add\<close> is the addition of integers.

  The tasks that \<open>Spawn\<close> starts run beside the caller and are not modelled as
  such: what the output relay writes into the pipe, and when, is given with the read end
  of the pipe, and what the child writes to the pseudo-terminal with its master side. The
  methods \<open>String\<close>, \<open>Write\<close>, \<open>Send\<close> and \<open>SendLine\<close> are left out.
\<close>

type_synonym rune = nat
type_synonym Duration = "64 word"
type_synonym Time = int
type_synonym termios = nat

datatype go_error =
    ErrorsNew string
  | EOF
  | ErrClosed
  | ErrDeadlineExceeded
  | ErrTooLong
  | ErrOther string

text \<open>
  \<open>os.IsTimeout\<close>: of the errors above only the exceeded deadline is a timeout;
  \<open>ErrOther\<close> stands for the failures of the operating system that are none.
\<close>

definition IsTimeout :: "go_error \<Rightarrow> bool" where
  "IsTimeout err = (err = ErrDeadlineExceeded)"

text \<open>
  A call returns, blocks for ever, or panics; in the last two cases the outcome holds the
  state reached.
\<close>

datatype ('a, 's) outcome = Returns 'a | Blocks 's | Panics string 's

text \<open>The calls into the operating system that a method makes, in the order made.\<close>

datatype event =
    EvSetReadDeadline Time
  | EvReaderRead
  | EvReaderClose
  | EvCmdWait
  | EvPtyClose
  | EvSignalStop
  | EvCloseSignalCh
  | EvTermRestore
  | EvPtyRead
  | EvStdoutWrite string

text \<open>
  An \<open>*os.File\<close> that is read: the pseudo-terminal's master side, or the read end of
  the pipe that feeds the scanner. \<open>f_chunks\<close> are the writes still to be read, each
  with the instant at which it becomes readable; \<open>f_end\<close> is the error that a read
  meets once they are consumed and the instant from which it does (\<open>EOF\<close> when the
  write end is closed), \<open>None\<close> when the other side stays open for ever.
\<close>

record os_file =
  f_closed :: bool
  f_close_err :: "go_error option"
  f_deadline :: "Time option"
  f_chunks :: "(Time \<times> string) list"
  f_end :: "(Time \<times> go_error) option"

record Scanner =
  sc_buf :: string
  sc_err :: "go_error option"
  sc_token :: string

text \<open>
  An \<open>*exec.Cmd\<close>: the command and its arguments, and whether the child ever exits;
  \<open>cmd.Wait\<close> returns when it does and blocks for ever when it does not.
\<close>

record Cmd =
  cmd_name :: "rune list"
  cmd_args :: "rune list list"
  cmd_exits :: bool

text \<open>
  The struct \<open>Expect\<close>. Each field holds the state of the resource the Go field points
  to. The fields after \<open>signalCh\<close> are the part of the process state that the methods
  read and write: the clock, the mode of the controlling terminal, what restoring it
  reports, what has been written to standard output, and the calls made so far.
\<close>

record Expect =
  pty :: os_file
  cmd :: Cmd
  timeout :: Duration
  reader :: os_file
  scanner :: Scanner
  oldState :: termios
  signalCh_open :: bool
  clock :: Time
  term_mode :: termios
  restore_err :: "go_error option"
  stdout :: string
  trace :: "event list"

text \<open>The state in which a call ends.\<close>

fun reached :: "('a \<times> Expect, Expect) outcome \<Rightarrow> Expect" where
  "reached (Returns (r, e)) = e"
| "reached (Blocks e) = e"
| "reached (Panics msg e) = e"

fun returned :: "('a, 's) outcome \<Rightarrow> bool" where
  "returned (Returns r) = True"
| "returned (Blocks e) = False"
| "returned (Panics msg e) = False"

fun blocked :: "('a, 's) outcome \<Rightarrow> bool" where
  "blocked (Returns r) = False"
| "blocked (Blocks e) = True"
| "blocked (Panics msg e) = False"

text \<open>The calls that a method made: what it appended to the calls made before.\<close>

definition calls_of :: "Expect \<Rightarrow> ('a \<times> Expect, Expect) outcome \<Rightarrow> event list" where
  "calls_of e out = drop (length (trace e)) (trace (reached out))"

section \<open>Files\<close>

text \<open>
  \<open>(*os.File).Close\<close>: a file that is already closed reports \<open>ErrClosed\<close>;
  otherwise the file is closed for good, whatever closing the descriptor reports.
\<close>

definition file_Close :: "os_file \<Rightarrow> go_error option \<times> os_file" where
  "file_Close f =
     (if f_closed f then (Some ErrClosed, f) else (f_close_err f, f\<lparr>f_closed := True\<rparr>))"

text \<open>
  \<open>(*os.File).SetReadDeadline\<close>: the zero instant removes the deadline.
\<close>

definition file_SetReadDeadline :: "Time \<Rightarrow> os_file \<Rightarrow> go_error option \<times> os_file" where
  "file_SetReadDeadline t f =
     (if f_closed f then (Some ErrClosed, f)
      else (None, f\<lparr>f_deadline := (if t = 0 then None else Some t)\<rparr>))"

text \<open>
  \<open>(*os.File).Read\<close> into a buffer of \<open>cap\<close> bytes, called at the instant \<open>now\<close>.
  The result is the bytes read, the error, the instant at which the call returns and the
  file; \<open>None\<close> when the call blocks for ever. A read into a buffer of no bytes
  returns at once with no error. A read fails at once when the deadline is not in the
  future, and at the deadline when nothing becomes readable before it. Otherwise the read
  returns as soon as a byte is readable, with all the bytes that are readable by then, as
  far as the buffer holds them; the rest stays readable. Writes of no bytes are not seen
  by a reader.
\<close>

definition expired :: "Time option \<Rightarrow> Time \<Rightarrow> bool" where
  "expired d t = (case d of None \<Rightarrow> False | Some dl \<Rightarrow> dl \<le> t)"

definition timed_out ::
  "Time \<Rightarrow> os_file \<Rightarrow> (string \<times> go_error option) \<times> Time \<times> os_file" where
  "timed_out now f =
     (([], Some ErrDeadlineExceeded),
      (case f_deadline f of None \<Rightarrow> now | Some dl \<Rightarrow> max now dl), f)"

definition file_Read ::
  "nat \<Rightarrow> Time \<Rightarrow> os_file \<Rightarrow> ((string \<times> go_error option) \<times> Time \<times> os_file) option" where
  "file_Read cap now f =
     (if f_closed f then Some (([], Some ErrClosed), now, f)
      else if cap = 0 then Some (([], None), now, f)
      else if expired (f_deadline f) now then Some (timed_out now f)
      else
        case dropWhile (\<lambda>c. snd c = []) (f_chunks f) of
          c # rest \<Rightarrow>
            if expired (f_deadline f) (fst c) then Some (timed_out now f)
            else
              let at = max now (fst c);
                  bytes = snd c @ concat (map snd (takeWhile (\<lambda>d. fst d \<le> at) rest));
                  later = dropWhile (\<lambda>d. fst d \<le> at) rest
              in Some ((take cap bytes, None), at,
                       f\<lparr>f_chunks := (fst c, drop cap bytes) # later\<rparr>)
        | [] \<Rightarrow>
           (case f_end f of
              Some (t, err) \<Rightarrow>
                if expired (f_deadline f) t then Some (timed_out now f)
                else Some (([], Some err), max now t, f\<lparr>f_chunks := []\<rparr>)
            | None \<Rightarrow>
               (case f_deadline f of
                  None \<Rightarrow> None
                | Some dl \<Rightarrow> Some (timed_out now f))))"

text \<open>The bytes still to be read.\<close>

definition pending :: "os_file \<Rightarrow> nat" where
  "pending f = length (concat (map snd (f_chunks f)))"

lemma concat_dropWhile_empty:
  "concat (map snd (dropWhile (\<lambda>c. snd c = []) cs)) = concat (map snd cs)"
  by (induction cs) simp_all

lemma dropWhile_empty_head:
  "dropWhile (\<lambda>c. snd c = []) cs = c # rest \<Longrightarrow> snd c \<noteq> []"
  using hd_dropWhile [of "\<lambda>c. snd c = []" cs] by auto

lemma file_Read_data:
  assumes "file_Read cap now f = Some ((bs, None), now', f')" and "0 < cap"
  obtains c rest where "dropWhile (\<lambda>c. snd c = []) (f_chunks f) = c # rest"
    and "bs = take cap (snd c @ concat (map snd (takeWhile (\<lambda>d. fst d \<le> max now (fst c)) rest)))"
    and "f_chunks f' =
      (fst c, drop cap (snd c @ concat (map snd (takeWhile (\<lambda>d. fst d \<le> max now (fst c)) rest))))
        # dropWhile (\<lambda>d. fst d \<le> max now (fst c)) rest"
  using assms
  by (auto simp: file_Read_def timed_out_def Let_def
      split: if_splits list.splits option.splits)

lemma concat_takeWhile_dropWhile:
  "concat (map snd (takeWhile P cs)) @ concat (map snd (dropWhile P cs)) = concat (map snd cs)"
  by (metis concat_append map_append takeWhile_dropWhile_id)

lemma file_Read_data_output:
  assumes "file_Read cap now f = Some ((bs, None), now', f')"
  shows "bs @ concat (map snd (f_chunks f')) = concat (map snd (f_chunks f))"
proof (cases "cap = 0")
  case True
  with assms have "bs = []" and "f' = f"
    by (auto simp: file_Read_def split: if_splits)
  then show ?thesis by simp
next
  case False
  then have "0 < cap" by simp
  from file_Read_data [OF assms this] obtain c rest where
    dw: "dropWhile (\<lambda>c. snd c = []) (f_chunks f) = c # rest"
    and bs: "bs = take cap (snd c @ concat (map snd (takeWhile (\<lambda>d. fst d \<le> max now (fst c)) rest)))"
    and f': "f_chunks f' =
      (fst c, drop cap (snd c @ concat (map snd (takeWhile (\<lambda>d. fst d \<le> max now (fst c)) rest))))
        # dropWhile (\<lambda>d. fst d \<le> max now (fst c)) rest"
    by blast
  define B where "B = snd c @ concat (map snd (takeWhile (\<lambda>d. fst d \<le> max now (fst c)) rest))"
  define later where "later = dropWhile (\<lambda>d. fst d \<le> max now (fst c)) rest"
  have "concat (map snd (f_chunks f)) = concat (map snd (c # rest))"
    using concat_dropWhile_empty [of "f_chunks f"] dw by simp
  also have "\<dots> = B @ concat (map snd later)"
    unfolding B_def later_def
    using concat_takeWhile_dropWhile [of "\<lambda>d. fst d \<le> max now (fst c)" rest] by simp
  finally have all: "concat (map snd (f_chunks f)) = B @ concat (map snd later)" .
  have "bs = take cap B" and "f_chunks f' = (fst c, drop cap B) # later"
    using bs f' unfolding B_def later_def by blast+
  then have "bs @ concat (map snd (f_chunks f')) = (take cap B @ drop cap B) @ concat (map snd later)"
    by simp
  then show ?thesis unfolding all by simp
qed

lemma file_Read_data_nonempty:
  assumes "file_Read cap now f = Some ((bs, None), now', f')" and "0 < cap"
  shows "bs \<noteq> []"
proof -
  from file_Read_data [OF assms] obtain c rest where
    dw: "dropWhile (\<lambda>c. snd c = []) (f_chunks f) = c # rest"
    and bs: "bs = take cap (snd c @ concat (map snd (takeWhile (\<lambda>d. fst d \<le> max now (fst c)) rest)))"
    by blast
  from dropWhile_empty_head [OF dw] bs assms(2) show ?thesis by simp
qed

lemma file_Read_data_pending:
  assumes "file_Read cap now f = Some ((bs, None), now', f')" and "0 < cap"
  shows "pending f' < pending f"
proof -
  have "length bs + pending f' = pending f"
    using file_Read_data_output [OF assms(1)] unfolding pending_def
    by (metis length_append)
  moreover have "bs \<noteq> []" using file_Read_data_nonempty [OF assms] .
  ultimately show ?thesis by (cases bs) auto
qed

lemma file_Read_data_same:
  assumes "file_Read cap now f = Some ((bs, None), now', f')"
  shows "f_closed f' = f_closed f \<and> f_deadline f' = f_deadline f \<and> f_end f' = f_end f
    \<and> f_close_err f' = f_close_err f"
  using assms
  by (auto simp: file_Read_def timed_out_def Let_def
      split: if_splits list.splits option.splits)

lemma file_Read_error:
  assumes "file_Read cap now f = Some ((bs, Some x), now', f')"
  shows "bs = [] \<and> pending f' \<le> pending f"
  using assms
  by (auto simp: file_Read_def timed_out_def pending_def Let_def
      split: if_splits list.splits option.splits)

section \<open>Spawn\<close>

definition Second :: Duration where
  "Second = 1000000000"

definition DefaultTimeout :: Duration where
  "DefaultTimeout = 60 * Second"

text \<open>\<open>unicode.IsSpace\<close>.\<close>

definition isSpace :: "rune \<Rightarrow> bool" where
  "isSpace r =
     (if r \<le> 0xFF then r \<in> {0x09, 0x0A, 0x0B, 0x0C, 0x0D, 0x20, 0x85, 0xA0}
      else r = 0x1680 \<or> (0x2000 \<le> r \<and> r \<le> 0x200A) \<or> r = 0x2028 \<or> r = 0x2029
        \<or> r = 0x202F \<or> r = 0x205F \<or> r = 0x3000)"

text \<open>
  \<open>strings.Fields\<close>: the maximal runs of runes that are no spaces. \<open>cur\<close> is the
  field being read.
\<close>

fun fields_from :: "rune list \<Rightarrow> rune list \<Rightarrow> rune list list" where
  "fields_from cur [] = (if cur = [] then [] else [cur])"
| "fields_from cur (r # rs) =
     (if isSpace r then (if cur = [] then fields_from [] rs else cur # fields_from [] rs)
      else fields_from (cur @ [r]) rs)"

definition Fields :: "rune list \<Rightarrow> rune list list" where
  "Fields s = fields_from [] s"

text \<open>
  What the operating system answers to the calls \<open>Spawn\<close> makes: \<open>pty.Start\<close> (an
  error, or the master side of the pseudo-terminal and whether the child ever exits),
  \<open>term.MakeRaw\<close> (an error, or the raw mode it installs), \<open>os.Pipe\<close> (an error, or
  the read end with what the output relay is going to write into the pipe).
\<close>

record spawn_env =
  env_now :: Time
  env_start :: "go_error + os_file \<times> bool"
  env_term :: termios
  env_makeraw :: "go_error + termios"
  env_pipe :: "go_error + os_file"
  env_restore_err :: "go_error option"

definition NewScanner :: Scanner where
  "NewScanner = \<lparr>sc_buf = [], sc_err = None, sc_token = []\<rparr>"

definition Spawn ::
  "spawn_env \<Rightarrow> rune list \<Rightarrow> Duration \<Rightarrow> (Expect option \<times> go_error option, unit) outcome"
  where
  "Spawn env command timeout0 =
     (if length command = 0 then Returns (None, Some (ErrorsNew ''invalid command''))
      else
        let timeout1 = (if timeout0 <s 1 then DefaultTimeout else timeout0);
            commands = Fields command
        in case commands of
             [] \<Rightarrow> Panics ''slice bounds out of range [1:0]'' ()
           | c0 # args \<Rightarrow>
              (case env_start env of
                 Inl err \<Rightarrow> Returns (None, Some err)
               | Inr (ptmx, exits) \<Rightarrow>
                  (case env_makeraw env of
                     Inl err \<Rightarrow> Returns (None, Some err)
                   | Inr raw \<Rightarrow>
                      (case env_pipe env of
                         Inl err \<Rightarrow> Returns (None, Some err)
                       | Inr rd \<Rightarrow>
                          Returns
                            (Some \<lparr>pty = ptmx,
                                   cmd = \<lparr>cmd_name = c0, cmd_args = args, cmd_exits = exits\<rparr>,
                                   timeout = timeout1,
                                   reader = rd,
                                   scanner = NewScanner,
                                   oldState = env_term env,
                                   signalCh_open = True,
                                   clock = env_now env,
                                   term_mode = raw,
                                   restore_err = env_restore_err env,
                                   stdout = [],
                                   trace = []\<rparr>,
                             None)))))"

section \<open>The scanner\<close>

text \<open>
  \<open>bufio.Scanner\<close> with the split function \<open>bufio.ScanLines\<close>, as \<open>Spawn\<close> sets it
  up. \<open>sc_buf\<close> is the part of the buffer that is not consumed yet, \<open>sc_err\<close> the
  error the scanner has met (end of stream included), which it keeps.
\<close>

definition MaxScanTokenSize :: nat where
  "MaxScanTokenSize = 64 * 1024"

definition dropCR :: "string \<Rightarrow> string" where
  "dropCR data = (if data \<noteq> [] \<and> last data = CHR 0x0D then butlast data else data)"

definition ScanLines :: "string \<Rightarrow> bool \<Rightarrow> nat \<times> string option" where
  "ScanLines data atEOF =
     (if atEOF \<and> data = [] then (0, None)
      else if CHR 0x0A \<in> set data then
        (let i = length (takeWhile (\<lambda>c. c \<noteq> CHR 0x0A) data)
         in (i + 1, Some (dropCR (take i data))))
      else if atEOF then (length data, Some (dropCR data))
      else (0, None))"

text \<open>
  The head of the loop of \<open>Scan\<close>: the split function is called when the buffer holds
  data or an error is set, and is told that no more data comes when an error is set.
\<close>

definition split_buffer :: "Scanner \<Rightarrow> nat \<times> string option" where
  "split_buffer s =
     (if sc_buf s \<noteq> [] \<or> sc_err s \<noteq> None then ScanLines (sc_buf s) (sc_err s \<noteq> None)
      else (0, None))"

text \<open>
  The state after a read of the scanner's reader has returned: the bytes read are added
  to the buffer and the error of the read is kept. The token is the one that the split
  function has left: none when it was called, on a buffer that held data.
\<close>

definition fill ::
  "Expect \<Rightarrow> (string \<times> go_error option) \<times> Time \<times> os_file \<Rightarrow> Expect" where
  "fill e r =
     e\<lparr>reader := snd (snd r), clock := fst (snd r), trace := trace e @ [EvReaderRead],
       scanner := (scanner e)\<lparr>sc_buf := sc_buf (scanner e) @ fst (fst r),
                              sc_err := snd (fst r),
                              sc_token := (if sc_buf (scanner e) = [] then sc_token (scanner e)
                                           else [])\<rparr>\<rparr>"

text \<open>
  \<open>(*Scanner).Scan\<close>. A token is handed out when the split function finds one.
  Otherwise a scanner that has met an error stops, a full buffer of the largest size is
  the error \<open>ErrTooLong\<close>, and else the reader is read into the free part of the buffer
  and the loop goes round. A read of the reader never returns no bytes and no error, so
  the inner loop of the Go code that counts such reads makes one read. The buffer is
  taken at its largest size from the start: that the Go buffer grows to it in steps
  changes how many reads are made, not the bytes they deliver or the instants at which
  they fail.
\<close>

function Scan :: "Expect \<Rightarrow> (bool \<times> Expect, Expect) outcome" where
  "Scan e =
     (case snd (split_buffer (scanner e)) of
        Some token \<Rightarrow>
          Returns (True,
            e\<lparr>scanner := (scanner e)
                 \<lparr>sc_buf := drop (fst (split_buffer (scanner e))) (sc_buf (scanner e)),
                  sc_token := token\<rparr>\<rparr>)
      | None \<Rightarrow>
          if sc_err (scanner e) \<noteq> None
          then Returns (False, e\<lparr>scanner := (scanner e)\<lparr>sc_buf := [], sc_token := []\<rparr>\<rparr>)
          else if MaxScanTokenSize \<le> length (sc_buf (scanner e))
          then Returns (False,
                 e\<lparr>scanner := (scanner e)\<lparr>sc_err := Some ErrTooLong, sc_token := []\<rparr>\<rparr>)
          else
            (case file_Read (MaxScanTokenSize - length (sc_buf (scanner e))) (clock e) (reader e) of
               None \<Rightarrow> Blocks (e\<lparr>trace := trace e @ [EvReaderRead]\<rparr>)
             | Some r \<Rightarrow> Scan (fill e r)))"
  by pat_completeness auto
termination
proof (relation "measure (\<lambda>e. 2 * pending (reader e)
    + (if sc_err (scanner e) = None then 1 else 0))")
  show "wf (measure (\<lambda>e. 2 * pending (reader e) + (if sc_err (scanner e) = None then 1 else 0)))"
    by simp
next
  fix e :: Expect and r
  assume noerr: "\<not> sc_err (scanner e) \<noteq> None"
    and room: "\<not> MaxScanTokenSize \<le> length (sc_buf (scanner e))"
    and rd: "file_Read (MaxScanTokenSize - length (sc_buf (scanner e))) (clock e) (reader e) = Some r"
  obtain bs err now' f' where r: "r = ((bs, err), now', f')" by (cases r) auto
  have cap: "0 < MaxScanTokenSize - length (sc_buf (scanner e))" using room by simp
  show "(fill e r, e) \<in> measure (\<lambda>e. 2 * pending (reader e)
      + (if sc_err (scanner e) = None then 1 else 0))"
  proof (cases err)
    case None
    have "pending f' < pending (reader e)"
      using file_Read_data_pending [OF _ cap] rd r None by blast
    then show ?thesis using noerr r None by (simp add: fill_def)
  next
    case (Some x)
    have "pending f' \<le> pending (reader e)"
      using file_Read_error rd r Some by blast
    then show ?thesis using noerr r Some by (simp add: fill_def)
  qed
qed

declare Scan.simps [simp del]

definition Text :: "Scanner \<Rightarrow> string" where
  "Text s = sc_token s"

text \<open>\<open>(*Scanner).Err\<close>: the error met, unless it is the end of the stream.\<close>

definition scanner_Err :: "Scanner \<Rightarrow> go_error option" where
  "scanner_Err s = (if sc_err s = Some EOF then None else sc_err s)"

section \<open>Wait\<close>

text \<open>
  The calls of \<open>Wait\<close> in the order of the source, with its two early returns. The
  result of \<open>cmd.Wait\<close> is dropped. Closing a channel that is closed already panics.
  A restore that fails leaves the mode of the terminal as it is.
\<close>

definition Wait :: "Expect \<Rightarrow> (go_error option \<times> Expect, Expect) outcome" where
  "Wait e =
     (let e1 = e\<lparr>trace := trace e @ [EvCmdWait]\<rparr> in
      if \<not> cmd_exits (cmd e1) then Blocks e1
      else
        let (err, p) = file_Close (pty e1);
            e2 = e1\<lparr>pty := p, trace := trace e1 @ [EvPtyClose]\<rparr>
        in if err \<noteq> None then Returns (err, e2)
           else
             let e3 = e2\<lparr>trace := trace e2 @ [EvSignalStop]\<rparr>;
                 e4 = e3\<lparr>trace := trace e3 @ [EvCloseSignalCh]\<rparr>
             in if \<not> signalCh_open e4 then Panics ''close of closed channel'' e4
                else
                  let e5 = e4\<lparr>signalCh_open := False\<rparr>;
                      err = restore_err e5;
                      e6 = e5\<lparr>trace := trace e5 @ [EvTermRestore],
                              term_mode := (if err = None then oldState e5 else term_mode e5)\<rparr>
                  in if err \<noteq> None then Returns (err, e6)
                     else Returns (None, e6))"

section \<open>Expect, ExpectRe, ExpectAny\<close>

text \<open>\<open>strings.Contains\<close>.\<close>

fun Contains :: "string \<Rightarrow> string \<Rightarrow> bool" where
  "Contains [] substr = (substr = [])"
| "Contains (c # s) substr = (prefix substr (c # s) \<or> Contains s substr)"

text \<open>
  A compiled regular expression is modelled by what \<open>FindString\<close> returns for it: the
  text of the leftmost match, which is empty when there is no match.
\<close>

type_synonym Regexp = "string \<Rightarrow> string"

definition FindString :: "Regexp \<Rightarrow> string \<Rightarrow> string" where
  "FindString re s = re s"

text \<open>The size of what the scanner can still hand out.\<close>

definition unread :: "Expect \<Rightarrow> nat" where
  "unread e = 2 * (length (sc_buf (scanner e)) + pending (reader e))
     + (if sc_err (scanner e) = None then 1 else 0)"

lemma ScanLines_advance:
  "ScanLines data atEOF = (n, Some token) \<Longrightarrow> 0 < n \<and> n \<le> length data"
proof -
  have "length (takeWhile (\<lambda>c. c \<noteq> CHR 0x0A) data) < length data" if "CHR 0x0A \<in> set data"
    using that by (induction data) auto
  then show "ScanLines data atEOF = (n, Some token) \<Longrightarrow> 0 < n \<and> n \<le> length data"
    by (auto simp: ScanLines_def Let_def split: if_splits)
qed

lemma split_buffer_advance:
  "split_buffer s = (n, Some token) \<Longrightarrow> 0 < n \<and> n \<le> length (sc_buf s)"
  using ScanLines_advance by (auto simp: split_buffer_def split: if_splits)

lemma unread_fill:
  assumes "sc_err (scanner e) = None" and "0 < cap"
    and "file_Read cap (clock e) (reader e) = Some r"
  shows "unread (fill e r) \<le> unread e"
proof -
  obtain bs err now' f' where r: "r = ((bs, err), now', f')" by (cases r) auto
  show ?thesis
  proof (cases err)
    case None
    have "length bs + pending f' = pending (reader e)"
      using file_Read_data_output [of cap "clock e" "reader e" bs now' f'] assms(3) r None
      unfolding pending_def by (metis length_append)
    then show ?thesis using assms(1) r None by (simp add: unread_def fill_def)
  next
    case (Some x)
    then show ?thesis
      using file_Read_error [of cap "clock e" "reader e" bs x now' f'] assms r
      by (simp add: unread_def fill_def)
  qed
qed

lemma Scan_unread:
  "Scan e = Returns (True, e') \<Longrightarrow> unread e' < unread e"
proof (induction e rule: Scan.induct)
  case (1 e)
  show ?case
  proof (cases "snd (split_buffer (scanner e))")
    case (Some token)
    then have sp: "split_buffer (scanner e) = (fst (split_buffer (scanner e)), Some token)"
      by (metis prod.collapse)
    have e': "e' = e\<lparr>scanner := (scanner e)
                 \<lparr>sc_buf := drop (fst (split_buffer (scanner e))) (sc_buf (scanner e)),
                  sc_token := token\<rparr>\<rparr>"
      using "1.prems" Some by (subst (asm) Scan.simps) simp
    from split_buffer_advance [OF sp]
    have "length (drop (fst (split_buffer (scanner e))) (sc_buf (scanner e)))
        < length (sc_buf (scanner e))"
      unfolding length_drop by arith
    then show ?thesis by (subst e') (simp add: unread_def)
  next
    case None
    note split = None
    from "1.prems" have noerr: "sc_err (scanner e) = None"
      and room: "\<not> MaxScanTokenSize \<le> length (sc_buf (scanner e))"
      by (subst (asm) Scan.simps, simp add: split split: if_splits)+
    show ?thesis
    proof (cases "file_Read (MaxScanTokenSize - length (sc_buf (scanner e))) (clock e) (reader e)")
      case None
      with "1.prems" split noerr room show ?thesis by (subst (asm) Scan.simps) simp
    next
      case (Some r)
      have "Scan e = Scan (fill e r)"
        by (subst Scan.simps) (simp add: split noerr room Some)
      with "1.prems" have "unread e' < unread (fill e r)"
        using "1.IH" [OF split _ room Some] noerr by simp
      moreover have "unread (fill e r) \<le> unread e"
        using unread_fill [OF noerr _ Some] room by simp
      ultimately show ?thesis by simp
    qed
  qed
qed

text \<open>
  The loop of \<open>ExpectAny\<close>: the match with which the method returns from inside the
  loop, or \<open>None\<close> when the loop ends because \<open>Scan\<close> returns false.
\<close>

function scan_loop ::
  "string \<Rightarrow> Regexp option \<Rightarrow> Expect \<Rightarrow> (string option \<times> Expect, Expect) outcome" where
  "scan_loop pattern re e =
     (case Scan e of
        Blocks e1 \<Rightarrow> Blocks e1
      | Panics msg e1 \<Rightarrow> Panics msg e1
      | Returns (ok, e1) \<Rightarrow>
          if \<not> ok then Returns (None, e1)
          else
            let text = Text (scanner e1) in
            if 0 < length pattern \<and> Contains text pattern then Returns (Some pattern, e1)
            else
              (case re of
                 Some r \<Rightarrow>
                   let matched = FindString r text in
                   if 0 < length matched then Returns (Some matched, e1)
                   else scan_loop pattern re e1
               | None \<Rightarrow> scan_loop pattern re e1))"
  by pat_completeness auto
termination
  by (relation "measure (\<lambda>(pattern, re, e). unread e)") (auto dest: Scan_unread)

declare scan_loop.simps [simp del]

definition ExpectAny ::
  "string \<Rightarrow> Regexp option \<Rightarrow> Duration \<Rightarrow> Expect
    \<Rightarrow> ((string \<times> go_error option) \<times> Expect, Expect) outcome" where
  "ExpectAny pattern re timeout0 e =
     (let timeout1 = (if timeout0 <s 0 then timeout e else timeout0);
          deadline = clock e + sint timeout1;
          e1 = e\<lparr>reader := snd (file_SetReadDeadline deadline (reader e)),
                 trace := trace e @ [EvSetReadDeadline deadline]\<rparr>
      in case scan_loop pattern re e1 of
           Blocks e2 \<Rightarrow> Blocks e2
         | Panics msg e2 \<Rightarrow> Panics msg e2
         | Returns (Some matched, e2) \<Rightarrow> Returns ((matched, None), e2)
         | Returns (None, e2) \<Rightarrow>
             (case Wait e2 of
                Blocks e3 \<Rightarrow> Blocks e3
              | Panics msg e3 \<Rightarrow> Panics msg e3
              | Returns (werr, e3) \<Rightarrow>
                  if scanner_Err (scanner e3) \<noteq> None
                  then Returns (([], scanner_Err (scanner e3)), e3)
                  else Returns (([], Some (ErrorsNew ''command exit'')), e3)))"

definition Expect ::
  "string \<Rightarrow> Duration \<Rightarrow> Expect \<Rightarrow> ((bool \<times> go_error option) \<times> Expect, Expect) outcome" where
  "Expect pattern timeout0 e =
     (case ExpectAny pattern None timeout0 e of
        Returns ((matched, err), e1) \<Rightarrow> Returns ((matched \<noteq> [], err), e1)
      | Blocks e1 \<Rightarrow> Blocks e1
      | Panics msg e1 \<Rightarrow> Panics msg e1)"

definition ExpectRe ::
  "Regexp \<Rightarrow> Duration \<Rightarrow> Expect \<Rightarrow> ((string \<times> go_error option) \<times> Expect, Expect) outcome" where
  "ExpectRe re timeout0 e = ExpectAny [] (Some re) timeout0 e"

section \<open>Interact\<close>

text \<open>
  \<open>io.Copy(os.Stdout, e.pty)\<close>: read the pseudo-terminal and write what was read to
  standard output, until a read reports an error. Writing to standard output succeeds.
\<close>

function io_Copy_pty :: "Expect \<Rightarrow> (unit \<times> Expect, Expect) outcome" where
  "io_Copy_pty e =
     (case file_Read 32768 (clock e) (pty e) of
        None \<Rightarrow> Blocks (e\<lparr>trace := trace e @ [EvPtyRead]\<rparr>)
      | Some ((bs, err), now', f') \<Rightarrow>
          let e1 = e\<lparr>pty := f', clock := now', trace := trace e @ [EvPtyRead]\<rparr>;
              e2 = (if bs \<noteq> []
                    then e1\<lparr>stdout := stdout e1 @ bs, trace := trace e1 @ [EvStdoutWrite bs]\<rparr>
                    else e1)
          in if err \<noteq> None then Returns ((), e2) else io_Copy_pty e2)"
  by pat_completeness auto
termination
proof (relation "measure (\<lambda>e. pending (pty e))")
  show "wf (measure (\<lambda>e. pending (pty e)))" by simp
next
  fix e x2 x y xa ya x1 x2a xb xc
  assume "file_Read 32768 (clock e) (pty e) = Some x2" "(x, y) = x2" "(xa, ya) = y"
    "(x1, x2a) = x"
    "xb = e\<lparr>pty := ya, clock := xa, trace := trace e @ [EvPtyRead]\<rparr>"
    "xc = (if x1 \<noteq> [] then xb\<lparr>stdout := stdout xb @ x1, trace := trace xb @ [EvStdoutWrite x1]\<rparr> else xb)"
    "\<not> x2a \<noteq> None"
  then have "file_Read 32768 (clock e) (pty e) = Some ((x1, None), xa, ya)" and "pty xc = ya"
    by auto
  then show "(xc, e) \<in> measure (\<lambda>e. pending (pty e))"
    using file_Read_data_pending [of 32768 "clock e" "pty e" x1 xa ya] by simp
qed

declare io_Copy_pty.simps [simp del]

definition Interact :: "Expect \<Rightarrow> (go_error option \<times> Expect, Expect) outcome" where
  "Interact e =
     (let (err, rd) = file_Close (reader e);
          e1 = e\<lparr>reader := rd, trace := trace e @ [EvReaderClose]\<rparr>
      in if err \<noteq> None then Returns (err, e1)
         else
           case io_Copy_pty e1 of
             Returns (u, e2) \<Rightarrow> Returns (None, e2)
           | Blocks e2 \<Rightarrow> Blocks e2
           | Panics msg e2 \<Rightarrow> Panics msg e2)"

section \<open>PipeThrough\<close>

text \<open>
  The channel \<open>errCh\<close> as its receiver meets it. The task started by
  \<open>NewPipeThrough\<close> sends one error and closes the channel, so a receive yields that
  error (\<open>Holding\<close>: the receive waits for it if need be), and every later receive
  finds the channel closed and empty (\<open>Drained\<close>). When the wrapped reader never ends,
  nothing is ever sent and a receive blocks for ever (\<open>NeverSent\<close>); when the task
  panics, the program is down by the time a receive would complete (\<open>Crashed\<close>).
\<close>

datatype err_chan = NeverSent | Holding go_error | Drained | Crashed

record PipeThrough =
  pt_reader :: os_file
  pt_errCh :: err_chan

text \<open>
  What \<open>NewPipeThrough\<close> meets: the result of \<open>os.Pipe\<close> (an error, or the read end
  with what the copy is going to write into the pipe), the error with which
  \<open>io.Copy(pipeWriter, reader)\<close> returns (\<open>None\<close> when the wrapped reader never ends),
  and the result of closing the write end.
\<close>

record pipe_env =
  pe_pipe :: "go_error + os_file"
  pe_copy :: "go_error option option"
  pe_close :: "go_error option"

text \<open>The task of \<open>NewPipeThrough\<close>, by what it leaves in the channel.\<close>

definition copy_task :: "pipe_env \<Rightarrow> err_chan" where
  "copy_task env =
     (case pe_copy env of
        None \<Rightarrow> NeverSent
      | Some readerErr0 \<Rightarrow>
          let readerErr = (if readerErr0 = None then Some EOF else readerErr0)
          in if pe_close env \<noteq> None then Crashed
             else (case readerErr of Some err \<Rightarrow> Holding err | None \<Rightarrow> Drained))"

definition NewPipeThrough :: "pipe_env \<Rightarrow> PipeThrough option \<times> go_error option" where
  "NewPipeThrough env =
     (case pe_pipe env of
        Inl err \<Rightarrow> (None, Some err)
      | Inr pipeReader \<Rightarrow> (Some \<lparr>pt_reader = pipeReader, pt_errCh = copy_task env\<rparr>, None))"

definition PipeThrough_Read ::
  "nat \<Rightarrow> Time \<Rightarrow> PipeThrough
    \<Rightarrow> ((string \<times> go_error option) \<times> Time \<times> PipeThrough, PipeThrough) outcome" where
  "PipeThrough_Read cap now pt =
     (case file_Read cap now (pt_reader pt) of
        None \<Rightarrow> Blocks pt
      | Some ((bs, err), now', f') \<Rightarrow>
          let pt1 = pt\<lparr>pt_reader := f'\<rparr> in
          (case err of
             Some e \<Rightarrow>
               if IsTimeout e then Returns ((bs, err), now', pt1)
               else
                 (case pt_errCh pt1 of
                    NeverSent \<Rightarrow> Blocks pt1
                  | Crashed \<Rightarrow> Panics ''pipeWriter.Close'' pt1
                  | Drained \<Rightarrow> Returns ((bs, err), now', pt1)
                  | Holding perr \<Rightarrow> Returns ((bs, Some perr), now', pt1\<lparr>pt_errCh := Drained\<rparr>))
           | None \<Rightarrow> Returns ((bs, None), now', pt1)))"

text \<open>The results of up to \<open>k\<close> reads in a row, of the pipe and of the PipeThrough.\<close>

fun file_Reads :: "nat \<Rightarrow> nat \<Rightarrow> Time \<Rightarrow> os_file \<Rightarrow> (string \<times> go_error option) list" where
  "file_Reads 0 cap now f = []"
| "file_Reads (Suc k) cap now f =
     (case file_Read cap now f of
        None \<Rightarrow> []
      | Some (r, now', f') \<Rightarrow> r # file_Reads k cap now' f')"

fun PipeThrough_Reads ::
  "nat \<Rightarrow> nat \<Rightarrow> Time \<Rightarrow> PipeThrough \<Rightarrow> (string \<times> go_error option) list" where
  "PipeThrough_Reads 0 cap now pt = []"
| "PipeThrough_Reads (Suc k) cap now pt =
     (case PipeThrough_Read cap now pt of
        Returns (r, now', pt') \<Rightarrow> r # PipeThrough_Reads k cap now' pt'
      | Blocks pt' \<Rightarrow> []
      | Panics msg pt' \<Rightarrow> [])"

section \<open>Notions used in the statements\<close>

text \<open>
  The session after the first two statements of \<open>ExpectAny\<close>: the timeout is chosen
  and the read deadline is set.
\<close>

definition armed :: "Duration \<Rightarrow> Expect \<Rightarrow> Expect" where
  "armed timeout0 e =
     (let timeout1 = (if timeout0 <s 0 then timeout e else timeout0);
          deadline = clock e + sint timeout1
      in e\<lparr>reader := snd (file_SetReadDeadline deadline (reader e)),
            trace := trace e @ [EvSetReadDeadline deadline]\<rparr>)"

text \<open>The lines that the scanner hands out from a state on, in order.\<close>

function drain :: "Expect \<Rightarrow> string list" where
  "drain e =
     (case Scan e of
        Returns (ok, e1) \<Rightarrow> if ok then Text (scanner e1) # drain e1 else []
      | Blocks e1 \<Rightarrow> []
      | Panics msg e1 \<Rightarrow> [])"
  by pat_completeness auto
termination
  by (relation "measure unread") (auto dest: Scan_unread)

declare drain.simps [simp del]

text \<open>
  The claim about matching in its own words. A line is tested against the literal, when
  one is supplied, and then against the regular expression, when one is supplied; a
  literal that matches gives the literal, a regular expression that matches gives the
  text it matched. The lines are tested in order, and the first line that passes a test
  ends the search, leaving the lines after it.
\<close>

definition test_line :: "string \<Rightarrow> Regexp option \<Rightarrow> string \<Rightarrow> string option" where
  "test_line pattern re text =
     (if pattern \<noteq> [] \<and> Contains text pattern then Some pattern
      else case re of
             None \<Rightarrow> None
           | Some r \<Rightarrow> if FindString r text \<noteq> [] then Some (FindString r text) else None)"

fun first_match ::
  "string \<Rightarrow> Regexp option \<Rightarrow> string list \<Rightarrow> (string \<times> string list) option" where
  "first_match pattern re [] = None"
| "first_match pattern re (l # ls) =
     (case test_line pattern re l of
        Some m \<Rightarrow> Some (m, ls)
      | None \<Rightarrow> first_match pattern re ls)"

text \<open>
  The claim in its own words: of the results of the pipe, the first error that is no
  timeout is replaced by the terminal error of the wrapped reader; everything else is
  passed on as it is.
\<close>

fun surface_once ::
  "go_error \<Rightarrow> (string \<times> go_error option) list \<Rightarrow> (string \<times> go_error option) list" where
  "surface_once perr [] = []"
| "surface_once perr ((bs, None) # rs) = (bs, None) # surface_once perr rs"
| "surface_once perr ((bs, Some e) # rs) =
     (if IsTimeout e then (bs, Some e) # surface_once perr rs else (bs, Some perr) # rs)"

section \<open>Sample sessions\<close>

definition sample_pty :: os_file where
  "sample_pty =
     \<lparr>f_closed = False, f_close_err = None, f_deadline = None,
      f_chunks = [(5, ''ready'' @ [CHR 0x0A])], f_end = Some (6, ErrOther ''EIO'')\<rparr>"

definition sample_pipe :: os_file where
  "sample_pipe =
     \<lparr>f_closed = False, f_close_err = None, f_deadline = None,
      f_chunks = [(5, ''ready'' @ [CHR 0x0A])], f_end = Some (6, EOF)\<rparr>"

definition sample_env :: spawn_env where
  "sample_env =
     \<lparr>env_now = 1, env_start = Inr (sample_pty, True), env_term = 0, env_makeraw = Inr 1,
      env_pipe = Inr sample_pipe, env_restore_err = None\<rparr>"

definition sample_session :: Expect where
  "sample_session =
     \<lparr>pty = sample_pty,
      cmd = \<lparr>cmd_name = [0x6C, 0x73], cmd_args = [], cmd_exits = True\<rparr>,
      timeout = DefaultTimeout, reader = sample_pipe, scanner = NewScanner, oldState = 0,
      signalCh_open = True, clock = 1, term_mode = 1, restore_err = None, stdout = [],
      trace = []\<rparr>"

text \<open>A session whose pseudo-terminal cannot be closed.\<close>

definition close_fails_session :: Expect where
  "close_fails_session =
     sample_session\<lparr>pty := sample_pty\<lparr>f_close_err := Some (ErrOther ''EIO'')\<rparr>\<rparr>"

text \<open>A session whose terminal mode cannot be restored.\<close>

definition restore_fails_session :: Expect where
  "restore_fails_session = sample_session\<lparr>restore_err := Some (ErrOther ''ENOTTY'')\<rparr>"

text \<open>A session whose child neither writes nor exits.\<close>

definition idle_session :: Expect where
  "idle_session =
     sample_session
       \<lparr>pty := sample_pty\<lparr>f_chunks := [], f_end := None\<rparr>,
        reader := sample_pipe\<lparr>f_chunks := [], f_end := None\<rparr>,
        cmd := \<lparr>cmd_name = [0x63, 0x61, 0x74], cmd_args = [], cmd_exits = False\<rparr>\<rparr>"

text \<open>A session whose child writes three lines, the second in two pieces.\<close>

definition lines_session :: Expect where
  "lines_session =
     sample_session
       \<lparr>reader := sample_pipe
          \<lparr>f_chunks := [(2, ''one'' @ [CHR 0x0A] @ ''two re''),
                        (3, ''ady'' @ [CHR 0x0A] @ ''three'')]\<rparr>\<rparr>"

text \<open>A session whose scanner has been detached by \<open>Interact\<close>.\<close>

definition detached_session :: Expect where
  "detached_session = sample_session\<lparr>reader := sample_pipe\<lparr>f_closed := True\<rparr>\<rparr>"

text \<open>The session after \<open>Expect("ready", -1)\<close> has matched in \<open>sample_session\<close>.\<close>

definition after_ready :: Expect where
  "after_ready =
     sample_session
       \<lparr>reader := sample_pipe\<lparr>f_deadline := Some 60000000001, f_chunks := [(5, [])]\<rparr>,
        scanner := \<lparr>sc_buf = [], sc_err = None, sc_token = ''ready''\<rparr>,
        clock := 5,
        trace := [EvSetReadDeadline 60000000001, EvReaderRead]\<rparr>"



definition sample_pipethrough :: PipeThrough where
  "sample_pipethrough =
     \<lparr>pt_reader =
        \<lparr>f_closed = False, f_close_err = None, f_deadline = None,
         f_chunks = [(2, ''ab''), (5, ''c'')], f_end = Some (6, EOF)\<rparr>,
      pt_errCh = Holding (ErrOther ''EIO'')\<rparr>"

definition sample_pipe_env :: pipe_env where
  "sample_pipe_env =
     \<lparr>pe_pipe = Inr (pt_reader sample_pipethrough), pe_copy = Some (Some (ErrOther ''EIO'')),
      pe_close = None\<rparr>"

section \<open>Properties of Spawn\<close>

lemma fields_from_spaces:
  "\<forall>r \<in> set s. isSpace r \<Longrightarrow> fields_from [] s = []"
  by (induction s) simp_all

lemma Fields_spaces: "\<forall>r \<in> set s. isSpace r \<Longrightarrow> Fields s = []"
  by (simp add: Fields_def fields_from_spaces)

lemma sless_one_iff: "(t :: Duration) <s 1 \<longleftrightarrow> sint t \<le> 0"
  by (auto simp: word_sless_alt)

lemma sint_DefaultTimeout: "sint DefaultTimeout = 60000000000"
  by (simp add: DefaultTimeout_def Second_def)

text \<open>
  C6. An empty command makes Spawn return the error "invalid command" and no session.
  A timeout that is zero or negative is replaced by the default of 60 seconds before
  anything else happens: Spawn behaves as if called with the default, and a session it
  returns stores 60 seconds as its timeout.
\<close>

theorem Spawn_empty_command_and_default_timeout:
  "Spawn env [] t = Returns (None, Some (ErrorsNew ''invalid command''))
   \<and> (sint t \<le> 0 \<longrightarrow>
        Spawn env command t = Spawn env command DefaultTimeout
        \<and> (\<forall>e err. Spawn env command t = Returns (Some e, err) \<longrightarrow>
              timeout e = DefaultTimeout \<and> sint (timeout e) = 60 * 1000000000))"
proof -
  have dflt: "DefaultTimeout <s 1 \<longleftrightarrow> False"
    by (simp add: sless_one_iff sint_DefaultTimeout)
  have empty: "Spawn env [] t = Returns (None, Some (ErrorsNew ''invalid command''))"
    by (simp add: Spawn_def)
  have same: "Spawn env command t = Spawn env command DefaultTimeout" if "sint t \<le> 0"
    using that by (simp add: Spawn_def sless_one_iff dflt)
  have stored: "timeout e = DefaultTimeout"
    if "sint t \<le> 0" and "Spawn env command t = Returns (Some e, err)" for e err
    using that
    by (auto simp: Spawn_def sless_one_iff Let_def
        split: if_splits list.splits sum.splits prod.splits)
  show ?thesis
    using empty same stored sint_DefaultTimeout by auto
qed

theorem Spawn_empty_command_and_default_timeout_witness:
  "sint (- 1 :: Duration) \<le> 0
   \<and> Spawn sample_env [0x6C, 0x73] (- 1) = Spawn sample_env [0x6C, 0x73] DefaultTimeout
   \<and> (case Spawn sample_env [0x6C, 0x73] (- 1) of
         Returns (Some e, err) \<Rightarrow> timeout e = DefaultTimeout \<and> err = None
       | _ \<Rightarrow> False)"
proof -
  have neg: "sint (- 1 :: Duration) \<le> 0" by simp
  have run: "\<exists>e. Spawn sample_env [0x6C, 0x73] (- 1) = Returns (Some e, None)"
    by (simp add: Spawn_def Fields_def isSpace_def sample_env_def sless_one_iff)
  from Spawn_empty_command_and_default_timeout [of sample_env "- 1" "[0x6C, 0x73]"] neg run
  show ?thesis by auto
qed

text \<open>
  C9. A command that is not empty and holds nothing but white space passes the length
  check of Spawn; its list of fields is empty, so building the command from the first
  field and the fields after it panics: the bounds of the slice of the arguments are out
  of range. The error "invalid command" is not what Spawn yields for it.
\<close>

theorem Spawn_whitespace_command_panics:
  assumes "command \<noteq> []" and "\<forall>r \<in> set command. isSpace r"
  shows "Fields command = []
    \<and> Spawn env command t = Panics ''slice bounds out of range [1:0]'' ()
    \<and> Spawn env command t \<noteq> Returns (None, Some (ErrorsNew ''invalid command''))"
  using assms by (simp add: Spawn_def Fields_spaces)

theorem Spawn_whitespace_command_panics_witness:
  "[0x20, 0x09] \<noteq> ([] :: rune list) \<and> isSpace 0x20 \<and> isSpace 0x09
   \<and> Spawn sample_env [0x20, 0x09] 5 = Panics ''slice bounds out of range [1:0]'' ()"
proof -
  have a: "[0x20, 0x09] \<noteq> ([] :: rune list)" by simp
  have b: "\<forall>r \<in> set [0x20, 0x09]. isSpace r" by (simp add: isSpace_def)
  from Spawn_whitespace_command_panics [OF a b, of sample_env 5] a b
  show ?thesis by (simp add: isSpace_def)
qed

section \<open>Properties of Wait and Interact\<close>

lemma Wait_trace:
  "\<exists>rest. trace (reached (Wait e)) = trace e @ EvCmdWait # rest \<and> EvCmdWait \<notin> set rest"
  by (simp add: Wait_def Let_def split: prod.splits)

lemma Wait_calls: "\<exists>rest. calls_of e (Wait e) = EvCmdWait # rest \<and> EvCmdWait \<notin> set rest"
  using Wait_trace [of e] by (auto simp: calls_of_def)

lemma Wait_error:
  "Wait e = Returns (err, e') \<Longrightarrow>
     err = (case fst (file_Close (pty e)) of Some x \<Rightarrow> Some x | None \<Rightarrow> restore_err e)"
  by (auto simp: Wait_def Let_def split: prod.splits if_splits)

lemma Wait_close_fails:
  "fst (file_Close (pty e)) \<noteq> None \<Longrightarrow>
     term_mode (reached (Wait e)) = term_mode e \<and> EvTermRestore \<notin> set (calls_of e (Wait e))"
  by (auto simp: Wait_def Let_def calls_of_def split: prod.splits if_splits)

lemma Wait_close_fails_returns:
  "cmd_exits (cmd e) \<Longrightarrow> fst (file_Close (pty e)) \<noteq> None \<Longrightarrow>
     Wait e = Returns (fst (file_Close (pty e)),
                e\<lparr>pty := snd (file_Close (pty e)), trace := trace e @ [EvCmdWait, EvPtyClose]\<rparr>)"
  by (auto simp: Wait_def Let_def calls_of_def split: prod.splits if_splits)

lemma Wait_nil:
  "Wait e = Returns (None, e') \<Longrightarrow>
     term_mode e' = oldState e \<and> f_closed (pty e') \<and> \<not> signalCh_open e'
     \<and> calls_of e (Wait e) = [EvCmdWait, EvPtyClose, EvSignalStop, EvCloseSignalCh, EvTermRestore]"
  by (auto simp: Wait_def Let_def calls_of_def file_Close_def split: prod.splits if_splits)

lemma Wait_blocks:
  "\<not> cmd_exits (cmd e) \<Longrightarrow> Wait e = Blocks (e\<lparr>trace := trace e @ [EvCmdWait]\<rparr>)"
  by (simp add: Wait_def)

lemma Wait_restore_fails:
  "cmd_exits (cmd e) \<Longrightarrow> fst (file_Close (pty e)) = None \<Longrightarrow> signalCh_open e \<Longrightarrow>
   restore_err e \<noteq> None \<Longrightarrow>
     Wait e = Returns (restore_err e,
               e\<lparr>pty := snd (file_Close (pty e)), signalCh_open := False,
                 trace := trace e @ [EvCmdWait, EvPtyClose, EvSignalStop, EvCloseSignalCh, EvTermRestore]\<rparr>)"
  by (auto simp: Wait_def Let_def calls_of_def split: prod.splits if_splits)

lemma io_Copy_pty_all:
  "\<not> f_closed (pty e) \<Longrightarrow> f_deadline (pty e) = None \<Longrightarrow>
     stdout (reached (io_Copy_pty e)) = stdout e @ concat (map snd (f_chunks (pty e)))
     \<and> blocked (io_Copy_pty e) = (f_end (pty e) = None)
     \<and> returned (io_Copy_pty e) = (f_end (pty e) \<noteq> None)"
proof (induction e rule: io_Copy_pty.induct)
  case (1 e)
  show ?case
  proof (cases "file_Read 32768 (clock e) (pty e)")
    case None
    then have "dropWhile (\<lambda>c. snd c = []) (f_chunks (pty e)) = []" and "f_end (pty e) = None"
      using 1(2,3)
      by (auto simp: file_Read_def expired_def timed_out_def Let_def
          split: list.splits option.splits if_splits)
    then have "concat (map snd (f_chunks (pty e))) = []" "f_end (pty e) = None"
      using concat_dropWhile_empty [of "f_chunks (pty e)"] by auto
    moreover have "io_Copy_pty e = Blocks (e\<lparr>trace := trace e @ [EvPtyRead]\<rparr>)"
      by (subst io_Copy_pty.simps) (simp add: None)
    ultimately show ?thesis by simp
  next
    case (Some r)
    then obtain bs err now' f' where r: "r = ((bs, err), now', f')" by (cases r) auto
    show ?thesis
    proof (cases err)
      case None
      let ?e1 = "e\<lparr>pty := f', clock := now', trace := trace e @ [EvPtyRead]\<rparr>"
      let ?e2 = "(if bs \<noteq> [] then ?e1\<lparr>stdout := stdout ?e1 @ bs, trace := trace ?e1 @ [EvStdoutWrite bs]\<rparr> else ?e1)"
      have rd: "file_Read 32768 (clock e) (pty e) = Some ((bs, None), now', f')"
        using Some r None by simp
      have same: "f_closed f' = f_closed (pty e)" "f_deadline f' = f_deadline (pty e)"
        "f_end f' = f_end (pty e)"
        using file_Read_data_same [OF rd] by auto
      have out: "bs @ concat (map snd (f_chunks f')) = concat (map snd (f_chunks (pty e)))"
        using file_Read_data_output [OF rd] .
      have ih: "stdout (reached (io_Copy_pty ?e2)) = stdout ?e2 @ concat (map snd (f_chunks (pty ?e2)))
        \<and> blocked (io_Copy_pty ?e2) = (f_end (pty ?e2) = None)
        \<and> returned (io_Copy_pty ?e2) = (f_end (pty ?e2) \<noteq> None)"
        using "1.IH" [OF rd refl refl refl refl refl] same 1(2,3) by simp
      have step: "io_Copy_pty e = io_Copy_pty ?e2"
        by (subst io_Copy_pty.simps) (simp add: rd Let_def)
      have "pty ?e2 = f'" "stdout ?e2 = stdout e @ bs" by auto
      with ih step out same show ?thesis by (metis append.assoc)
    next
      case (Some x)
      with \<open>file_Read 32768 (clock e) (pty e) = Some r\<close> r
      have rd: "file_Read 32768 (clock e) (pty e) = Some ((bs, Some x), now', f')" by simp
      then have "bs = []" "dropWhile (\<lambda>c. snd c = []) (f_chunks (pty e)) = []" "f_end (pty e) \<noteq> None"
        using 1(2,3)
        by (auto simp: file_Read_def expired_def timed_out_def Let_def
          split: list.splits option.splits if_splits)
      then have "concat (map snd (f_chunks (pty e))) = []" "f_end (pty e) \<noteq> None" "bs = []"
        using concat_dropWhile_empty [of "f_chunks (pty e)"] by auto
      moreover have "io_Copy_pty e =
          Returns ((), e\<lparr>pty := f', clock := now', trace := trace e @ [EvPtyRead]\<rparr>)"
        by (subst io_Copy_pty.simps) (simp add: rd \<open>bs = []\<close>)
      ultimately show ?thesis by simp
    qed
  qed
qed

lemma io_Copy_pty_trace:
  "\<exists>rest. trace (reached (io_Copy_pty e)) = trace e @ EvPtyRead # rest"
proof (induction e rule: io_Copy_pty.induct)
  case (1 e)
  show ?case
  proof (cases "file_Read 32768 (clock e) (pty e)")
    case None
    then have "io_Copy_pty e = Blocks (e\<lparr>trace := trace e @ [EvPtyRead]\<rparr>)"
      by (subst io_Copy_pty.simps) simp
    then show ?thesis by simp
  next
    case (Some r)
    then obtain bs err now' f' where
      rd: "file_Read 32768 (clock e) (pty e) = Some ((bs, err), now', f')"
      by (cases r) auto
    let ?e1 = "e\<lparr>pty := f', clock := now', trace := trace e @ [EvPtyRead]\<rparr>"
    let ?e2 = "(if bs \<noteq> [] then ?e1\<lparr>stdout := stdout ?e1 @ bs, trace := trace ?e1 @ [EvStdoutWrite bs]\<rparr> else ?e1)"
    have tr2: "\<exists>w. trace ?e2 = trace e @ EvPtyRead # w" by simp
    show ?thesis
    proof (cases err)
      case None
      have step: "io_Copy_pty e = io_Copy_pty ?e2"
        by (subst io_Copy_pty.simps) (simp add: rd None Let_def)
      from "1.IH" [OF rd refl refl refl refl refl] None
      obtain rest where "trace (reached (io_Copy_pty ?e2)) = trace ?e2 @ EvPtyRead # rest"
        by auto
      with tr2 step show ?thesis by (metis append.assoc append_Cons)
    next
      case (Some x)
      have "io_Copy_pty e = Returns ((), ?e2)"
        by (subst io_Copy_pty.simps) (simp add: rd Some Let_def)
      with tr2 show ?thesis by (metis reached.simps(1))
    qed
  qed
qed

lemma Interact_detach_fails:
  "fst (file_Close (reader e)) \<noteq> None \<Longrightarrow>
     Interact e = Returns (fst (file_Close (reader e)),
       e\<lparr>reader := snd (file_Close (reader e)), trace := trace e @ [EvReaderClose]\<rparr>)"
  by (auto simp: Interact_def Let_def split: prod.splits)

lemma Interact_detached:
  "fst (file_Close (reader e)) = None \<Longrightarrow>
     reached (Interact e)
       = reached (io_Copy_pty (e\<lparr>reader := snd (file_Close (reader e)), trace := trace e @ [EvReaderClose]\<rparr>))
     \<and> blocked (Interact e)
       = blocked (io_Copy_pty (e\<lparr>reader := snd (file_Close (reader e)), trace := trace e @ [EvReaderClose]\<rparr>))
     \<and> returned (Interact e)
       = returned (io_Copy_pty (e\<lparr>reader := snd (file_Close (reader e)), trace := trace e @ [EvReaderClose]\<rparr>))"
  by (auto simp: Interact_def Let_def split: prod.splits outcome.splits)

lemma Interact_result:
  "Interact e = Returns (err, e') \<Longrightarrow> err = fst (file_Close (reader e))"
  by (auto simp: Interact_def Let_def split: prod.splits outcome.splits if_splits)

text \<open>
  C7 (as amended). Wait first waits for the child to exit, in every run, and makes no
  other call when the child never exits. The error it returns is the failure to close the
  pseudo-terminal, or else the failure to restore the terminal mode. When closing fails,
  Wait returns at once: it does not restore the terminal mode, which stays as it was.
  When Wait returns no error the mode is the one saved at the start of the session.
\<close>

theorem Wait_exit_detection_then_teardown:
  "(\<exists>rest. calls_of e (Wait e) = EvCmdWait # rest \<and> EvCmdWait \<notin> set rest)
   \<and> (\<not> cmd_exits (cmd e) \<longrightarrow> Wait e = Blocks (e\<lparr>trace := trace e @ [EvCmdWait]\<rparr>))
   \<and> (\<forall>err e'. Wait e = Returns (err, e') \<longrightarrow>
         err = (case fst (file_Close (pty e)) of Some x \<Rightarrow> Some x | None \<Rightarrow> restore_err e))
   \<and> (fst (file_Close (pty e)) \<noteq> None \<longrightarrow>
         term_mode (reached (Wait e)) = term_mode e
         \<and> EvTermRestore \<notin> set (calls_of e (Wait e))
         \<and> (cmd_exits (cmd e) \<longrightarrow>
              Wait e = Returns (fst (file_Close (pty e)),
                e\<lparr>pty := snd (file_Close (pty e)), trace := trace e @ [EvCmdWait, EvPtyClose]\<rparr>)))
   \<and> (cmd_exits (cmd e) \<longrightarrow> fst (file_Close (pty e)) = None \<longrightarrow> signalCh_open e \<longrightarrow>
       restore_err e \<noteq> None \<longrightarrow>
         Wait e = Returns (restore_err e,
           e\<lparr>pty := snd (file_Close (pty e)), signalCh_open := False,
             trace := trace e @ [EvCmdWait, EvPtyClose, EvSignalStop, EvCloseSignalCh, EvTermRestore]\<rparr>))
   \<and> (\<forall>e'. Wait e = Returns (None, e') \<longrightarrow>
         term_mode e' = oldState e \<and> f_closed (pty e') \<and> \<not> signalCh_open e'
         \<and> calls_of e (Wait e)
             = [EvCmdWait, EvPtyClose, EvSignalStop, EvCloseSignalCh, EvTermRestore])"
  using Wait_calls [of e] Wait_blocks [of e] Wait_error [of e] Wait_close_fails [of e]
    Wait_close_fails_returns [of e] Wait_restore_fails [of e] Wait_nil [of e]
  by (intro conjI allI impI) blast+

theorem Wait_exit_detection_then_teardown_witness:
  "fst (file_Close (pty close_fails_session)) = Some (ErrOther ''EIO'')
   \<and> cmd_exits (cmd close_fails_session)
   \<and> Wait close_fails_session
       = Returns (Some (ErrOther ''EIO''),
           close_fails_session
             \<lparr>pty := snd (file_Close (pty close_fails_session)),
              trace := trace close_fails_session @ [EvCmdWait, EvPtyClose]\<rparr>)
   \<and> term_mode (reached (Wait close_fails_session)) = term_mode close_fails_session
   \<and> fst (file_Close (pty restore_fails_session)) = None
   \<and> restore_err restore_fails_session = Some (ErrOther ''ENOTTY'')
   \<and> Wait restore_fails_session
       = Returns (Some (ErrOther ''ENOTTY''),
           restore_fails_session
             \<lparr>pty := snd (file_Close (pty restore_fails_session)), signalCh_open := False,
              trace := trace restore_fails_session
                 @ [EvCmdWait, EvPtyClose, EvSignalStop, EvCloseSignalCh, EvTermRestore]\<rparr>)
   \<and> \<not> cmd_exits (cmd idle_session)
   \<and> Wait idle_session = Blocks (idle_session\<lparr>trace := trace idle_session @ [EvCmdWait]\<rparr>)"
proof -
  have c: "fst (file_Close (pty close_fails_session)) = Some (ErrOther ''EIO'')"
    "cmd_exits (cmd close_fails_session)"
    by (simp_all add: close_fails_session_def sample_session_def sample_pty_def file_Close_def)
  have r: "fst (file_Close (pty restore_fails_session)) = None"
    "restore_err restore_fails_session = Some (ErrOther ''ENOTTY'')"
    "cmd_exits (cmd restore_fails_session)" "signalCh_open restore_fails_session"
    by (simp_all add: restore_fails_session_def sample_session_def sample_pty_def file_Close_def)
  have i: "\<not> cmd_exits (cmd idle_session)"
    by (simp add: idle_session_def sample_session_def)
  have c': "fst (file_Close (pty close_fails_session)) \<noteq> None" using c by simp
  have r': "restore_err restore_fails_session \<noteq> None" using r by simp
  note t1 = Wait_exit_detection_then_teardown [of close_fails_session]
  note t2 = Wait_exit_detection_then_teardown [of restore_fails_session]
  note t3 = Wait_exit_detection_then_teardown [of idle_session]
  have w1: "Wait close_fails_session
       = Returns (fst (file_Close (pty close_fails_session)),
           close_fails_session
             \<lparr>pty := snd (file_Close (pty close_fails_session)),
              trace := trace close_fails_session @ [EvCmdWait, EvPtyClose]\<rparr>)"
    and w1': "term_mode (reached (Wait close_fails_session)) = term_mode close_fails_session"
    using t1 c' c(2) by blast+
  have w2: "Wait restore_fails_session
       = Returns (restore_err restore_fails_session,
           restore_fails_session
             \<lparr>pty := snd (file_Close (pty restore_fails_session)), signalCh_open := False,
              trace := trace restore_fails_session
                 @ [EvCmdWait, EvPtyClose, EvSignalStop, EvCloseSignalCh, EvTermRestore]\<rparr>)"
    using t2 r(1,3,4) r' by blast
  have w3: "Wait idle_session = Blocks (idle_session\<lparr>trace := trace idle_session @ [EvCmdWait]\<rparr>)"
    using t3 i by blast
  show ?thesis
    using c r(1,2) i w1' w3 w1 [unfolded c(1)] w2 [unfolded r(2)] by (intro conjI)
qed

text \<open>
  The claim C7 as stated has Wait restore the terminal mode although closing the
  pseudo-terminal failed. In a session where closing fails and restoring would succeed,
  Wait returns the failure to close after two calls, and the terminal keeps the raw mode 1
  instead of the saved mode 0.
\<close>

theorem Wait_restores_despite_close_failure_counterexample:
  "fst (file_Close (pty close_fails_session)) = Some (ErrOther ''EIO'')
   \<and> restore_err close_fails_session = None
   \<and> returned (Wait close_fails_session)
   \<and> calls_of close_fails_session (Wait close_fails_session) = [EvCmdWait, EvPtyClose]
   \<and> oldState close_fails_session = 0
   \<and> term_mode (reached (Wait close_fails_session)) = 1"
  by (simp add: Wait_def calls_of_def close_fails_session_def sample_session_def sample_pty_def
      file_Close_def)

text \<open>
  C4 (as amended). When closing the scanner's read end fails, Interact returns that error
  at once, having made no other call. An error that Interact returns is always the one of
  this close. When the close succeeds, Interact goes on to read the pseudo-terminal: it
  writes all the output that is still to come to standard output and returns nil only when
  a read of the pseudo-terminal fails; when the pseudo-terminal never ends, Interact does
  not return.
\<close>

theorem Interact_detaches_then_relays:
  "(fst (file_Close (reader e)) \<noteq> None \<longrightarrow>
       Interact e = Returns (fst (file_Close (reader e)),
         e\<lparr>reader := snd (file_Close (reader e)), trace := trace e @ [EvReaderClose]\<rparr>))
   \<and> (\<forall>err e'. Interact e = Returns (err, e') \<longrightarrow> err = fst (file_Close (reader e)))
   \<and> (fst (file_Close (reader e)) = None \<longrightarrow>
        (\<exists>rest. calls_of e (Interact e) = EvReaderClose # EvPtyRead # rest)
        \<and> (\<not> f_closed (pty e) \<longrightarrow> f_deadline (pty e) = None \<longrightarrow>
             stdout (reached (Interact e)) = stdout e @ concat (map snd (f_chunks (pty e)))
             \<and> blocked (Interact e) = (f_end (pty e) = None)
             \<and> returned (Interact e) = (f_end (pty e) \<noteq> None)))"
proof (intro conjI allI impI)
  show "Interact e = Returns (fst (file_Close (reader e)),
         e\<lparr>reader := snd (file_Close (reader e)), trace := trace e @ [EvReaderClose]\<rparr>)"
    if "fst (file_Close (reader e)) \<noteq> None"
    using that by (rule Interact_detach_fails)
  show "err = fst (file_Close (reader e))" if "Interact e = Returns (err, e')" for err e'
    using that by (rule Interact_result)
next
  let ?e1 = "e\<lparr>reader := snd (file_Close (reader e)), trace := trace e @ [EvReaderClose]\<rparr>"
  assume ok: "fst (file_Close (reader e)) = None"
  note d = Interact_detached [OF ok]
  from io_Copy_pty_trace [of ?e1] obtain rest where
    "trace (reached (io_Copy_pty ?e1)) = trace e @ EvReaderClose # EvPtyRead # rest"
    by auto
  then show "\<exists>rest. calls_of e (Interact e) = EvReaderClose # EvPtyRead # rest"
    using d by (simp add: calls_of_def)
  assume p: "\<not> f_closed (pty e)" "f_deadline (pty e) = None"
  then have "\<not> f_closed (pty ?e1)" "f_deadline (pty ?e1) = None" by simp_all
  from io_Copy_pty_all [OF this] d
  show "stdout (reached (Interact e)) = stdout e @ concat (map snd (f_chunks (pty e)))"
    and "blocked (Interact e) = (f_end (pty e) = None)"
    and "returned (Interact e) = (f_end (pty e) \<noteq> None)"
    by simp_all
qed

theorem Interact_detaches_then_relays_witness:
  "fst (file_Close (reader sample_session)) = None
   \<and> \<not> f_closed (pty sample_session) \<and> f_deadline (pty sample_session) = None
   \<and> stdout (reached (Interact sample_session)) = ''ready'' @ [CHR 0x0A]
   \<and> returned (Interact sample_session)
   \<and> fst (file_Close (reader (sample_session\<lparr>reader := sample_pipe\<lparr>f_closed := True\<rparr>\<rparr>)))
       = Some ErrClosed
   \<and> Interact (sample_session\<lparr>reader := sample_pipe\<lparr>f_closed := True\<rparr>\<rparr>)
       = Returns (Some ErrClosed,
           sample_session\<lparr>reader := sample_pipe\<lparr>f_closed := True\<rparr>, trace := [EvReaderClose]\<rparr>)"
proof -
  let ?s = "sample_session\<lparr>reader := sample_pipe\<lparr>f_closed := True\<rparr>\<rparr>"
  have a: "fst (file_Close (reader sample_session)) = None"
    "\<not> f_closed (pty sample_session)" "f_deadline (pty sample_session) = None"
    by (simp_all add: sample_session_def sample_pipe_def sample_pty_def file_Close_def)
  have a': "f_end (pty sample_session) \<noteq> None"
    "stdout sample_session @ concat (map snd (f_chunks (pty sample_session)))
       = ''ready'' @ [CHR 0x0A]"
    by (simp_all add: sample_session_def sample_pty_def)
  have b: "fst (file_Close (reader ?s)) = Some ErrClosed"
    by (simp add: sample_session_def sample_pipe_def file_Close_def)
  have b': "?s\<lparr>reader := snd (file_Close (reader ?s)), trace := trace ?s @ [EvReaderClose]\<rparr>
      = sample_session\<lparr>reader := sample_pipe\<lparr>f_closed := True\<rparr>, trace := [EvReaderClose]\<rparr>"
    by (simp add: sample_session_def sample_pipe_def file_Close_def)
  have b'': "fst (file_Close (reader ?s)) \<noteq> None" using b by simp
  note t1 = Interact_detaches_then_relays [of sample_session]
  note t2 = Interact_detaches_then_relays [of ?s]
  have w1: "stdout (reached (Interact sample_session))
      = stdout sample_session @ concat (map snd (f_chunks (pty sample_session)))"
    and w1': "returned (Interact sample_session) = (f_end (pty sample_session) \<noteq> None)"
    using t1 a by blast+
  have w2: "Interact ?s = Returns (fst (file_Close (reader ?s)),
      ?s\<lparr>reader := snd (file_Close (reader ?s)), trace := trace ?s @ [EvReaderClose]\<rparr>)"
    using t2 b'' by blast
  show ?thesis
    using a b w1 [unfolded a'(2)] w1' [THEN iffD2, OF a'(1)] w2 [unfolded b' b]
    by (intro conjI)
qed

text \<open>
  The claim C4 as stated has Interact return as soon as the scanner is detached. In a
  session whose child neither writes nor exits, the detach succeeds and Interact blocks in
  its first read of the pseudo-terminal.
\<close>

theorem Interact_returns_at_once_counterexample:
  "fst (file_Close (reader idle_session)) = None
   \<and> Interact idle_session
       = Blocks (idle_session\<lparr>reader := (reader idle_session)\<lparr>f_closed := True\<rparr>,
                               trace := [EvReaderClose, EvPtyRead]\<rparr>)"
proof -
  have "io_Copy_pty (idle_session\<lparr>reader := (reader idle_session)\<lparr>f_closed := True\<rparr>,
                                   trace := [EvReaderClose]\<rparr>)
      = Blocks (idle_session\<lparr>reader := (reader idle_session)\<lparr>f_closed := True\<rparr>,
                              trace := [EvReaderClose, EvPtyRead]\<rparr>)"
    by (subst io_Copy_pty.simps)
      (simp add: idle_session_def sample_session_def sample_pty_def file_Read_def expired_def
        Let_def)
  then show ?thesis
    by (simp add: Interact_def file_Close_def idle_session_def sample_session_def
        sample_pipe_def)
qed

section \<open>Properties of PipeThrough\<close>

lemma PipeThrough_Reads_drained:
  "pt_errCh pt = Drained \<Longrightarrow>
     PipeThrough_Reads k cap now pt = file_Reads k cap now (pt_reader pt)"
proof (induction k arbitrary: now pt)
  case 0
  show ?case by simp
next
  case (Suc k)
  show ?case
  proof (cases "file_Read cap now (pt_reader pt)")
    case None
    then show ?thesis by (simp add: PipeThrough_Read_def Let_def)
  next
    case (Some r)
    obtain bs err now' f' where r: "r = ((bs, err), now', f')" by (cases r) auto
    have "PipeThrough_Read cap now pt = Returns ((bs, err), now', pt\<lparr>pt_reader := f'\<rparr>)"
      using Some r Suc.prems by (cases err) (simp_all add: PipeThrough_Read_def Let_def)
    moreover have "PipeThrough_Reads k cap now' (pt\<lparr>pt_reader := f'\<rparr>) = file_Reads k cap now' f'"
      using Suc.IH [of "pt\<lparr>pt_reader := f'\<rparr>" now'] Suc.prems by simp
    ultimately show ?thesis using Some r by simp
  qed
qed

lemma PipeThrough_Reads_holding:
  "pt_errCh pt = Holding perr \<Longrightarrow>
     PipeThrough_Reads k cap now pt = surface_once perr (file_Reads k cap now (pt_reader pt))"
proof (induction k arbitrary: now pt)
  case 0
  show ?case by simp
next
  case (Suc k)
  show ?case
  proof (cases "file_Read cap now (pt_reader pt)")
    case None
    then show ?thesis by (simp add: PipeThrough_Read_def Let_def)
  next
    case (Some r)
    obtain bs err now' f' where r: "r = ((bs, err), now', f')" by (cases r) auto
    show ?thesis
    proof (cases "\<exists>e. err = Some e \<and> \<not> IsTimeout e")
      case True
      then obtain e where e: "err = Some e" "\<not> IsTimeout e" by auto
      have "PipeThrough_Read cap now pt
          = Returns ((bs, Some perr), now', pt\<lparr>pt_reader := f', pt_errCh := Drained\<rparr>)"
        using Some r e Suc.prems by (simp add: PipeThrough_Read_def Let_def)
      moreover have "PipeThrough_Reads k cap now' (pt\<lparr>pt_reader := f', pt_errCh := Drained\<rparr>)
          = file_Reads k cap now' f'"
        using PipeThrough_Reads_drained [of "pt\<lparr>pt_reader := f', pt_errCh := Drained\<rparr>"]
        by simp
      ultimately show ?thesis using Some r e by simp
    next
      case False
      have "PipeThrough_Read cap now pt = Returns ((bs, err), now', pt\<lparr>pt_reader := f'\<rparr>)"
        using Some r False by (cases err) (simp_all add: PipeThrough_Read_def Let_def)
      moreover have "PipeThrough_Reads k cap now' (pt\<lparr>pt_reader := f'\<rparr>)
          = surface_once perr (file_Reads k cap now' f')"
        using Suc.IH [of "pt\<lparr>pt_reader := f'\<rparr>" now'] Suc.prems by simp
      ultimately show ?thesis using Some r False by (cases err) simp_all
    qed
  qed
qed

lemma NewPipeThrough_holding:
  "pe_pipe env = Inr rd \<Longrightarrow> pe_copy env = Some readerErr \<Longrightarrow> pe_close env = None \<Longrightarrow>
     NewPipeThrough env
       = (Some \<lparr>pt_reader = rd,
                 pt_errCh = Holding (case readerErr of None \<Rightarrow> EOF | Some err \<Rightarrow> err)\<rparr>, None)"
  by (cases readerErr) (simp_all add: NewPipeThrough_def copy_task_def)

lemma PipeThrough_Read_holding:
  assumes "pt_errCh pt = Holding perr"
    and "file_Read cap now (pt_reader pt) = Some ((bs, err), now', f')"
  shows "PipeThrough_Read cap now pt =
     (case err of
        None \<Rightarrow> Returns ((bs, None), now', pt\<lparr>pt_reader := f'\<rparr>)
      | Some e \<Rightarrow>
          if IsTimeout e then Returns ((bs, Some e), now', pt\<lparr>pt_reader := f'\<rparr>)
          else Returns ((bs, Some perr), now', pt\<lparr>pt_reader := f', pt_errCh := Drained\<rparr>))"
  using assms by (cases err) (simp_all add: PipeThrough_Read_def Let_def)

lemma PipeThrough_Read_drained:
  assumes "pt_errCh pt = Drained"
    and "file_Read cap now (pt_reader pt) = Some (r, now', f')"
  shows "PipeThrough_Read cap now pt = Returns (r, now', pt\<lparr>pt_reader := f'\<rparr>)"
  using assms by (cases r; cases "snd r") (simp_all add: PipeThrough_Read_def Let_def)

text \<open>
  C8. A PipeThrough made by NewPipeThrough holds, once the wrapped reader has ended and
  the write end is closed, the terminal error of the wrapped reader: its read error, or
  end of stream when it had none. While that error is held, a read of the pipe that
  succeeds is passed on, a read that fails with a timeout is passed on and the error
  stays held, and the first read that fails otherwise returns the held error and empties
  the channel. From then on every read returns what the pipe returns. So in any run of
  reads the terminal error replaces the first failure that is no timeout, and nothing
  else.
\<close>

theorem PipeThrough_surfaces_terminal_error_once:
  "(pe_pipe env = Inr rd \<longrightarrow> pe_copy env = Some readerErr \<longrightarrow> pe_close env = None \<longrightarrow>
       NewPipeThrough env
         = (Some \<lparr>pt_reader = rd,
                   pt_errCh = Holding (case readerErr of None \<Rightarrow> EOF | Some err \<Rightarrow> err)\<rparr>,
            None))
   \<and> (pt_errCh pt = Holding perr \<longrightarrow>
        (\<forall>bs err now' f'. file_Read cap now (pt_reader pt) = Some ((bs, err), now', f') \<longrightarrow>
           PipeThrough_Read cap now pt =
             (case err of
                None \<Rightarrow> Returns ((bs, None), now', pt\<lparr>pt_reader := f'\<rparr>)
              | Some e \<Rightarrow>
                  if IsTimeout e then Returns ((bs, Some e), now', pt\<lparr>pt_reader := f'\<rparr>)
                  else Returns ((bs, Some perr), now',
                         pt\<lparr>pt_reader := f', pt_errCh := Drained\<rparr>)))
        \<and> PipeThrough_Reads k cap now pt
            = surface_once perr (file_Reads k cap now (pt_reader pt)))
   \<and> (pt_errCh pt = Drained \<longrightarrow>
        (\<forall>r now' f'. file_Read cap now (pt_reader pt) = Some (r, now', f') \<longrightarrow>
           PipeThrough_Read cap now pt = Returns (r, now', pt\<lparr>pt_reader := f'\<rparr>))
        \<and> PipeThrough_Reads k cap now pt = file_Reads k cap now (pt_reader pt))"
  using NewPipeThrough_holding [of env rd readerErr]
    PipeThrough_Read_holding [of pt perr cap now]
    PipeThrough_Reads_holding [of pt perr k cap now]
    PipeThrough_Read_drained [of pt cap now]
    PipeThrough_Reads_drained [of pt k cap now]
  by (intro conjI allI impI) blast+

lemma sample_file_Reads:
  "file_Reads 4 10 1 (pt_reader sample_pipethrough)
     = [(''ab'', None), (''c'', None), ([], Some EOF), ([], Some EOF)]"
  by (simp add: numeral_eq_Suc sample_pipethrough_def file_Read_def expired_def Let_def)

lemma sample_file_Reads_deadline:
  "file_Reads 3 10 1 ((pt_reader sample_pipethrough)\<lparr>f_deadline := Some 4\<rparr>)
     = [(''ab'', None), ([], Some ErrDeadlineExceeded), ([], Some ErrDeadlineExceeded)]"
  by (simp add: numeral_eq_Suc sample_pipethrough_def file_Read_def expired_def timed_out_def
      Let_def)

theorem PipeThrough_surfaces_terminal_error_once_witness:
  "pe_pipe sample_pipe_env = Inr (pt_reader sample_pipethrough)
   \<and> pe_copy sample_pipe_env = Some (Some (ErrOther ''EIO''))
   \<and> pe_close sample_pipe_env = None
   \<and> NewPipeThrough sample_pipe_env = (Some sample_pipethrough, None)
   \<and> pt_errCh sample_pipethrough = Holding (ErrOther ''EIO'')
   \<and> PipeThrough_Reads 4 10 1 sample_pipethrough
       = [(''ab'', None), (''c'', None), ([], Some (ErrOther ''EIO'')), ([], Some EOF)]
   \<and> PipeThrough_Reads 3 10 1
        (sample_pipethrough\<lparr>pt_reader := (pt_reader sample_pipethrough)\<lparr>f_deadline := Some 4\<rparr>\<rparr>)
       = [(''ab'', None), ([], Some ErrDeadlineExceeded), ([], Some ErrDeadlineExceeded)]
   \<and> pt_errCh (sample_pipethrough\<lparr>pt_errCh := Drained\<rparr>) = Drained
   \<and> PipeThrough_Reads 4 10 1 (sample_pipethrough\<lparr>pt_errCh := Drained\<rparr>)
       = [(''ab'', None), (''c'', None), ([], Some EOF), ([], Some EOF)]"
proof -
  let ?d = "sample_pipethrough\<lparr>pt_reader := (pt_reader sample_pipethrough)\<lparr>f_deadline := Some 4\<rparr>\<rparr>"
  let ?z = "sample_pipethrough\<lparr>pt_errCh := Drained\<rparr>"
  have env: "pe_pipe sample_pipe_env = Inr (pt_reader sample_pipethrough)"
    "pe_copy sample_pipe_env = Some (Some (ErrOther ''EIO''))"
    "pe_close sample_pipe_env = None"
    by (simp_all add: sample_pipe_env_def)
  have h: "pt_errCh sample_pipethrough = Holding (ErrOther ''EIO'')"
    "pt_errCh ?d = Holding (ErrOther ''EIO'')" "pt_errCh ?z = Drained"
    by (simp_all add: sample_pipethrough_def)
  have same: "\<lparr>pt_reader = pt_reader sample_pipethrough,
      pt_errCh = Holding (case Some (ErrOther ''EIO'') of None \<Rightarrow> EOF | Some err \<Rightarrow> err)\<rparr>
      = sample_pipethrough"
    by (simp add: sample_pipethrough_def)
  have rd: "pt_reader ?d = (pt_reader sample_pipethrough)\<lparr>f_deadline := Some 4\<rparr>"
    "pt_reader ?z = pt_reader sample_pipethrough"
    by simp_all
  note t0 = PipeThrough_surfaces_terminal_error_once
    [of sample_pipe_env "pt_reader sample_pipethrough" "Some (ErrOther ''EIO'')"
      sample_pipethrough "ErrOther ''EIO''" 10 1 4]
  note t1 = PipeThrough_surfaces_terminal_error_once
    [of sample_pipe_env "pt_reader sample_pipethrough" "Some (ErrOther ''EIO'')"
      ?d "ErrOther ''EIO''" 10 1 3]
  note t2 = PipeThrough_surfaces_terminal_error_once
    [of sample_pipe_env "pt_reader sample_pipethrough" "Some (ErrOther ''EIO'')"
      ?z "ErrOther ''EIO''" 10 1 4]
  have w0: "NewPipeThrough sample_pipe_env = (Some sample_pipethrough, None)"
    using t0 env same by metis
  have w1: "PipeThrough_Reads 4 10 1 sample_pipethrough
      = surface_once (ErrOther ''EIO'') (file_Reads 4 10 1 (pt_reader sample_pipethrough))"
    using t0 h(1) by blast
  have w2: "PipeThrough_Reads 3 10 1 ?d
      = surface_once (ErrOther ''EIO'') (file_Reads 3 10 1 (pt_reader ?d))"
    using t1 h(2) by blast
  have w3: "PipeThrough_Reads 4 10 1 ?z = file_Reads 4 10 1 (pt_reader ?z)"
    using t2 h(3) by blast
  have v1: "PipeThrough_Reads 4 10 1 sample_pipethrough
      = [(''ab'', None), (''c'', None), ([], Some (ErrOther ''EIO'')), ([], Some EOF)]"
    unfolding w1 sample_file_Reads by (simp add: IsTimeout_def)
  have v2: "PipeThrough_Reads 3 10 1 ?d
      = [(''ab'', None), ([], Some ErrDeadlineExceeded), ([], Some ErrDeadlineExceeded)]"
    unfolding w2 rd sample_file_Reads_deadline by (simp add: IsTimeout_def)
  have v3: "PipeThrough_Reads 4 10 1 ?z
      = [(''ab'', None), (''c'', None), ([], Some EOF), ([], Some EOF)]"
    unfolding w3 rd sample_file_Reads ..
  show ?thesis using env w0 h(1) v1 v2 h(3) v3 by (intro conjI)
qed

section \<open>Properties of Expect, ExpectRe, ExpectAny\<close>

lemma Contains_sublist: "Contains s substr = sublist substr s"
  by (induction s) (auto simp: sublist_Cons_right)

lemma ExpectAny_armed:
  "ExpectAny pattern re t e =
     (case scan_loop pattern re (armed t e) of
        Blocks e2 \<Rightarrow> Blocks e2
      | Panics msg e2 \<Rightarrow> Panics msg e2
      | Returns (Some matched, e2) \<Rightarrow> Returns ((matched, None), e2)
      | Returns (None, e2) \<Rightarrow>
          (case Wait e2 of
             Blocks e3 \<Rightarrow> Blocks e3
           | Panics msg e3 \<Rightarrow> Panics msg e3
           | Returns (werr, e3) \<Rightarrow>
               if scanner_Err (scanner e3) \<noteq> None
               then Returns (([], scanner_Err (scanner e3)), e3)
               else Returns (([], Some (ErrorsNew ''command exit'')), e3)))"
  by (simp add: ExpectAny_def armed_def Let_def)

lemma Wait_scanner: "scanner (reached (Wait e)) = scanner e"
  by (simp add: Wait_def Let_def split: prod.splits)

lemma scan_loop_step:
  "Scan e = Returns (True, e1) \<Longrightarrow>
     scan_loop pattern re e =
       (case test_line pattern re (Text (scanner e1)) of
          Some m \<Rightarrow> Returns (Some m, e1)
        | None \<Rightarrow> scan_loop pattern re e1)"
  by (subst scan_loop.simps) (auto simp: test_line_def Let_def split: option.splits)

lemma scan_loop_stop:
  "Scan e = Returns (False, e1) \<Longrightarrow> scan_loop pattern re e = Returns (None, e1)"
  by (subst scan_loop.simps) simp

lemma scan_loop_first_match:
  "first_match pattern re (drain e) =
     (case scan_loop pattern re e of
        Returns (Some m, e') \<Rightarrow> Some (m, drain e')
      | Returns (None, e') \<Rightarrow> None
      | Blocks e' \<Rightarrow> None
      | Panics msg e' \<Rightarrow> None)"
proof (induction pattern re e rule: scan_loop.induct)
  case (1 pattern re e)
  show ?case
  proof (cases "Scan e")
    case (Returns r)
    obtain ok e1 where r: "r = (ok, e1)" by (cases r) auto
    show ?thesis
    proof (cases ok)
      case False
      with Returns r have s: "Scan e = Returns (False, e1)" by simp
      have "drain e = []" by (subst drain.simps) (simp add: s)
      then show ?thesis by (simp add: scan_loop_stop [OF s])
    next
      case True
      with Returns r have s: "Scan e = Returns (True, e1)" by simp
      have d: "drain e = Text (scanner e1) # drain e1"
        by (subst drain.simps) (simp add: s)
      show ?thesis
      proof (cases "test_line pattern re (Text (scanner e1))")
        case (Some m)
        then show ?thesis by (simp add: d scan_loop_step [OF s])
      next
        case None
        have nolit: "\<not> (0 < length pattern \<and> Contains (Text (scanner e1)) pattern)"
          using None by (auto simp: test_line_def split: if_splits)
        have ih: "first_match pattern re (drain e1) =
           (case scan_loop pattern re e1 of
              Returns (Some m, e') \<Rightarrow> Some (m, drain e')
            | Returns (None, e') \<Rightarrow> None
            | Blocks e' \<Rightarrow> None
            | Panics msg e' \<Rightarrow> None)"
        proof (cases re)
          case None
          from "1.IH"(1) [of "(True, e1)" True e1 "Text (scanner e1)"] s nolit None
          show ?thesis by simp
        next
          case (Some r)
          have "\<not> 0 < length (FindString r (Text (scanner e1)))"
            using \<open>test_line pattern re (Text (scanner e1)) = None\<close> Some
            by (auto simp: test_line_def split: if_splits)
          with "1.IH"(2) [of "(True, e1)" True e1 "Text (scanner e1)" r
              "FindString r (Text (scanner e1))"] s nolit Some
          show ?thesis by simp
        qed
        show ?thesis by (simp add: d None scan_loop_step [OF s] ih)
      qed
    qed
  next
    case (Blocks e1)
    have "drain e = []" by (subst drain.simps) (simp add: Blocks)
    moreover have "scan_loop pattern re e = Blocks e1"
      by (subst scan_loop.simps) (simp add: Blocks)
    ultimately show ?thesis by simp
  next
    case (Panics msg e1)
    have "drain e = []" by (subst drain.simps) (simp add: Panics)
    moreover have "scan_loop pattern re e = Panics msg e1"
      by (subst scan_loop.simps) (simp add: Panics)
    ultimately show ?thesis by simp
  qed
qed

lemmas run_defs =
  Scan.simps scan_loop.simps drain.simps ExpectAny_def Expect_def Wait_def armed_def
  file_SetReadDeadline_def file_Read_def file_Close_def split_buffer_def ScanLines_def
  fill_def NewScanner_def expired_def timed_out_def MaxScanTokenSize_def Text_def dropCR_def
  DefaultTimeout_def Second_def scanner_Err_def FindString_def calls_of_def
  sample_session_def sample_pipe_def sample_pty_def

lemma first_match_None:
  "\<forall>l \<in> set ls. test_line pattern re l = None \<Longrightarrow> first_match pattern re ls = None"
  by (induction ls) simp_all

lemma ExpectAny_match:
  assumes "first_match pattern re (drain (armed t e)) = Some (m, rest)"
  shows "\<exists>e'. ExpectAny pattern re t e = Returns ((m, None), e') \<and> drain e' = rest"
proof -
  from assms scan_loop_first_match [of pattern re "armed t e"]
  obtain e' where "scan_loop pattern re (armed t e) = Returns (Some m, e')" "drain e' = rest"
    by (auto split: outcome.splits option.splits prod.splits)
  then show ?thesis by (simp add: ExpectAny_armed)
qed

lemma ExpectAny_no_match:
  assumes "first_match pattern re (drain (armed t e)) = None"
    and "ExpectAny pattern re t e = Returns ((m, err), e')"
  shows "m = [] \<and> err = (case scanner_Err (scanner e') of
                           Some x \<Rightarrow> Some x | None \<Rightarrow> Some (ErrorsNew ''command exit''))"
proof -
  from assms(1) scan_loop_first_match [of pattern re "armed t e"]
  have "\<And>x e2. scan_loop pattern re (armed t e) \<noteq> Returns (Some x, e2)"
    by (auto split: outcome.splits option.splits prod.splits)
  with assms(2) show ?thesis
    by (cases "scanner_Err (scanner e')")
      (auto simp: ExpectAny_armed split: outcome.splits option.splits prod.splits if_splits)
qed

lemma lines_session_drain:
  "drain (armed (- 1) lines_session) = [''one'', ''two ready'', ''three'']"
  by (simp add: run_defs lines_session_def)

text \<open>
  C5. Let the lines be those that the scanner hands out after the deadline of the call is
  set. When some line passes a test, ExpectAny returns without an error the result of the
  first such line, and the scanner is left with exactly the lines after it: no later line
  has been read. On a line the literal is tested first and gives the pattern itself; the
  regular expression is tested next and gives the text it matched. The literal test is
  the containment of the pattern in the line. When no line passes a test, ExpectAny does
  not return a match. Expect returns true in the first case.
\<close>

theorem ExpectAny_first_match_in_order:
  "(\<forall>m rest. first_match pattern re (drain (armed t e)) = Some (m, rest) \<longrightarrow>
       (\<exists>e'. ExpectAny pattern re t e = Returns ((m, None), e') \<and> drain e' = rest))
   \<and> (first_match pattern re (drain (armed t e)) = None \<longrightarrow>
       (\<forall>m e'. ExpectAny pattern re t e \<noteq> Returns ((m, None), e')))
   \<and> (\<forall>m rest. first_match pattern None (drain (armed t e)) = Some (m, rest) \<longrightarrow>
       m = pattern \<and> (\<exists>e'. Expect pattern t e = Returns ((True, None), e') \<and> drain e' = rest))
   \<and> Contains text pattern = sublist pattern text
   \<and> test_line pattern re text =
       (if pattern \<noteq> [] \<and> sublist pattern text then Some pattern
        else case re of
               None \<Rightarrow> None
             | Some r \<Rightarrow> if FindString r text \<noteq> [] then Some (FindString r text) else None)"
proof (intro conjI allI impI)
  show "\<exists>e'. ExpectAny pattern re t e = Returns ((m, None), e') \<and> drain e' = rest"
    if "first_match pattern re (drain (armed t e)) = Some (m, rest)" for m rest
    using that by (rule ExpectAny_match)
  show "ExpectAny pattern re t e \<noteq> Returns ((m, None), e')"
    if "first_match pattern re (drain (armed t e)) = None" for m e'
    using ExpectAny_no_match [OF that, of m None e'] by (auto split: option.splits)
  show "Contains text pattern = sublist pattern text" by (rule Contains_sublist)
  show "test_line pattern re text =
       (if pattern \<noteq> [] \<and> sublist pattern text then Some pattern
        else case re of
               None \<Rightarrow> None
             | Some r \<Rightarrow> if FindString r text \<noteq> [] then Some (FindString r text) else None)"
    by (simp add: test_line_def Contains_sublist)
next
  fix m rest
  assume fm: "first_match pattern None (drain (armed t e)) = Some (m, rest)"
  have "\<And>ls. first_match pattern None ls = Some (m, rest) \<Longrightarrow> m = pattern \<and> pattern \<noteq> []"
  proof -
    fix ls show "first_match pattern None ls = Some (m, rest) \<Longrightarrow> m = pattern \<and> pattern \<noteq> []"
      by (induction ls) (auto simp: test_line_def split: option.splits if_splits)
  qed
  from this [OF fm] show "m = pattern" and
    "\<exists>e'. Expect pattern t e = Returns ((True, None), e') \<and> drain e' = rest"
    using ExpectAny_match [OF fm] by (auto simp: Expect_def)
qed

theorem ExpectAny_first_match_in_order_witness:
  "first_match ''ready'' (Some (take 2)) (drain (armed (- 1) lines_session))
      = Some (''on'', [''two ready'', ''three''])
   \<and> (case ExpectAny ''ready'' (Some (take 2)) (- 1) lines_session of
         Returns ((m, err), e') \<Rightarrow> m = ''on'' \<and> err = None \<and> drain e' = [''two ready'', ''three'']
       | _ \<Rightarrow> False)
   \<and> first_match ''ready'' (Some (\<lambda>s. if s = ''one'' then [] else take 2 s))
        (drain (armed (- 1) lines_session)) = Some (''ready'', [''three''])
   \<and> (case ExpectAny ''ready'' (Some (\<lambda>s. if s = ''one'' then [] else take 2 s)) (- 1)
              lines_session of
         Returns ((m, err), e') \<Rightarrow> m = ''ready'' \<and> err = None \<and> drain e' = [''three'']
       | _ \<Rightarrow> False)
   \<and> first_match ''ready'' None (drain (armed (- 1) lines_session)) = Some (''ready'', [''three''])
   \<and> (case Expect ''ready'' (- 1) lines_session of
         Returns ((ok, err), e') \<Rightarrow> ok \<and> err = None \<and> drain e' = [''three'']
       | _ \<Rightarrow> False)
   \<and> first_match ''four'' None (drain (armed (- 1) lines_session)) = None
   \<and> (case ExpectAny ''four'' None (- 1) lines_session of
         Returns ((m, err), e') \<Rightarrow> err \<noteq> None
       | _ \<Rightarrow> True)"
proof -
  let ?re = "\<lambda>s. if s = ''one'' then [] else take 2 s"
  have a: "first_match ''ready'' (Some (take 2)) (drain (armed (- 1) lines_session))
      = Some (''on'', [''two ready'', ''three''])"
    by (simp add: lines_session_drain test_line_def FindString_def)
  have b: "first_match ''ready'' (Some ?re) (drain (armed (- 1) lines_session))
      = Some (''ready'', [''three''])"
    by (simp add: lines_session_drain test_line_def FindString_def prefix_def)
  have c: "first_match ''ready'' None (drain (armed (- 1) lines_session))
      = Some (''ready'', [''three''])"
    by (simp add: lines_session_drain test_line_def prefix_def)
  have d: "first_match ''four'' None (drain (armed (- 1) lines_session)) = None"
    by (simp add: lines_session_drain test_line_def prefix_def)
  note t1 = ExpectAny_first_match_in_order [of "''ready''" "Some (take 2)" "- 1" lines_session]
  note t2 = ExpectAny_first_match_in_order [of "''ready''" "Some ?re" "- 1" lines_session]
  note t3 = ExpectAny_first_match_in_order [of "''ready''" None "- 1" lines_session]
  note t4 = ExpectAny_first_match_in_order [of "''four''" None "- 1" lines_session]
  from t1 a obtain e1 where
    "ExpectAny ''ready'' (Some (take 2)) (- 1) lines_session = Returns ((''on'', None), e1)"
    "drain e1 = [''two ready'', ''three'']" by blast
  then have w1: "(case ExpectAny ''ready'' (Some (take 2)) (- 1) lines_session of
         Returns ((m, err), e') \<Rightarrow> m = ''on'' \<and> err = None \<and> drain e' = [''two ready'', ''three'']
       | _ \<Rightarrow> False)" by simp
  from t2 b obtain e2 where
    "ExpectAny ''ready'' (Some ?re) (- 1) lines_session = Returns ((''ready'', None), e2)"
    "drain e2 = [''three'']" by blast
  then have w2: "(case ExpectAny ''ready'' (Some ?re) (- 1) lines_session of
         Returns ((m, err), e') \<Rightarrow> m = ''ready'' \<and> err = None \<and> drain e' = [''three'']
       | _ \<Rightarrow> False)" by simp
  from t3 c obtain e3 where
    "Expect ''ready'' (- 1) lines_session = Returns ((True, None), e3)" "drain e3 = [''three'']"
    by blast
  then have w3: "(case Expect ''ready'' (- 1) lines_session of
         Returns ((ok, err), e') \<Rightarrow> ok \<and> err = None \<and> drain e' = [''three'']
       | _ \<Rightarrow> False)" by simp
  from t4 d have "\<And>m e'. ExpectAny ''four'' None (- 1) lines_session \<noteq> Returns ((m, None), e')"
    by blast
  then have w4: "(case ExpectAny ''four'' None (- 1) lines_session of
         Returns ((m, err), e') \<Rightarrow> err \<noteq> None
       | _ \<Rightarrow> True)"
    by (auto split: outcome.splits prod.splits) blast
  show ?thesis using a w1 b w2 c w3 d w4 by (intro conjI)
qed

lemma ExpectAny_loop_ended:
  assumes "scan_loop pattern re (armed t e) = Returns (None, e2)"
  shows "reached (ExpectAny pattern re t e) = reached (Wait e2)"
    and "returned (ExpectAny pattern re t e) = returned (Wait e2)"
    and "returned (Wait e2) \<Longrightarrow>
      ExpectAny pattern re t e =
        Returns (([], case scanner_Err (scanner e2) of
                        Some x \<Rightarrow> Some x
                      | None \<Rightarrow> Some (ErrorsNew ''command exit'')),
                 reached (Wait e2))"
    and "blocked (ExpectAny pattern re t e) = blocked (Wait e2)"
proof -
  show "reached (ExpectAny pattern re t e) = reached (Wait e2)"
    and "returned (ExpectAny pattern re t e) = returned (Wait e2)"
    and "blocked (ExpectAny pattern re t e) = blocked (Wait e2)"
    using assms
    by (auto simp: ExpectAny_armed split: outcome.splits option.splits prod.splits)
  assume "returned (Wait e2)"
  then obtain werr e3 where w: "Wait e2 = Returns (werr, e3)"
    by (cases "Wait e2") auto
  have "scanner e3 = scanner e2" using Wait_scanner [of e2] w by simp
  then show "ExpectAny pattern re t e =
        Returns (([], case scanner_Err (scanner e2) of
                        Some x \<Rightarrow> Some x
                      | None \<Rightarrow> Some (ErrorsNew ''command exit'')),
                 reached (Wait e2))"
    using assms w
    by (cases "scanner_Err (scanner e2)") (auto simp: ExpectAny_armed)
qed

lemma ExpectAny_loop_ended_calls:
  assumes "scan_loop pattern re (armed t e) = Returns (None, e2)"
  shows "\<exists>rest. calls_of e2 (ExpectAny pattern re t e) = EvCmdWait # rest"
  using Wait_calls [of e2] ExpectAny_loop_ended(1) [OF assms]
  by (auto simp: calls_of_def)




lemma sample_session_Expect_ready:
  "Expect ''ready'' (- 1) sample_session = Returns ((True, None), after_ready)"
  by (simp add: run_defs Let_def after_ready_def prefix_def)






text \<open>
  C2 (as amended). When the loop of ExpectAny ends because a read of the scanner has run
  into the deadline, no line having matched, the next call that ExpectAny makes is the
  exit detection of Wait: the session is torn down. ExpectAny ends in the state in which
  Wait ends; once Wait has returned, it returns the empty string with the timeout error of
  the scanner, and it does not return when Wait does not.
\<close>

theorem ExpectAny_timeout_waits_then_returns_timeout:
  "\<forall>e2. scan_loop pattern re (armed t e) = Returns (None, e2) \<longrightarrow>
          sc_err (scanner e2) = Some ErrDeadlineExceeded \<longrightarrow>
        reached (ExpectAny pattern re t e) = reached (Wait e2)
        \<and> (\<exists>rest. calls_of e2 (ExpectAny pattern re t e) = EvCmdWait # rest)
        \<and> returned (ExpectAny pattern re t e) = returned (Wait e2)
        \<and> (returned (Wait e2) \<longrightarrow>
             ExpectAny pattern re t e
               = Returns (([], Some ErrDeadlineExceeded), reached (Wait e2)))"
proof (intro conjI allI impI)
  fix e2
  assume l: "scan_loop pattern re (armed t e) = Returns (None, e2)"
    and dl: "sc_err (scanner e2) = Some ErrDeadlineExceeded"
  show "reached (ExpectAny pattern re t e) = reached (Wait e2)"
    using ExpectAny_loop_ended(1) [OF l] .
  show "\<exists>rest. calls_of e2 (ExpectAny pattern re t e) = EvCmdWait # rest"
    using ExpectAny_loop_ended_calls [OF l] .
  show "returned (ExpectAny pattern re t e) = returned (Wait e2)"
    using ExpectAny_loop_ended(2) [OF l] .
  show "ExpectAny pattern re t e = Returns (([], Some ErrDeadlineExceeded), reached (Wait e2))"
    if "returned (Wait e2)"
    using ExpectAny_loop_ended(3) [OF l that] dl by (simp add: scanner_Err_def)
qed

lemma sample_session_timeout_loop:
  "case scan_loop ''ready'' None (armed 3 sample_session) of
     Returns (None, e2) \<Rightarrow> sc_err (scanner e2) = Some ErrDeadlineExceeded \<and> returned (Wait e2)
   | _ \<Rightarrow> False"
  by (simp add: run_defs Let_def word_sless_alt)

theorem ExpectAny_timeout_waits_then_returns_timeout_witness:
  "(case scan_loop ''ready'' None (armed 3 sample_session) of
      Returns (None, e2) \<Rightarrow> sc_err (scanner e2) = Some ErrDeadlineExceeded \<and> returned (Wait e2)
    | _ \<Rightarrow> False)
   \<and> (case ExpectAny ''ready'' None 3 sample_session of
         Returns ((m, err), e') \<Rightarrow> m = [] \<and> err = Some ErrDeadlineExceeded
       | _ \<Rightarrow> False)"
proof -
  from sample_session_timeout_loop obtain e2 where
    l: "scan_loop ''ready'' None (armed 3 sample_session) = Returns (None, e2)"
    and dl: "sc_err (scanner e2) = Some ErrDeadlineExceeded" and w: "returned (Wait e2)"
    by (auto split: outcome.splits option.splits prod.splits)
  from ExpectAny_timeout_waits_then_returns_timeout [of "''ready''" None 3 sample_session] l dl w
  have "ExpectAny ''ready'' None 3 sample_session
      = Returns (([], Some ErrDeadlineExceeded), reached (Wait e2))"
    by blast
  then have "(case ExpectAny ''ready'' None 3 sample_session of
         Returns ((m, err), e') \<Rightarrow> m = [] \<and> err = Some ErrDeadlineExceeded
       | _ \<Rightarrow> False)" by simp
  with sample_session_timeout_loop show ?thesis by (intro conjI)
qed

text \<open>
  The claim C2 as stated has a call that times out leave the session as it is. In the
  sample session the line arrives at instant 5 and the call, made at instant 1 with a
  timeout of 3, runs into its deadline at instant 4: it returns the timeout error after
  Wait has closed the pseudo-terminal, closed the notification channel and restored the
  terminal mode. In the session whose child never exits the same call does not return.
\<close>

theorem ExpectAny_timeout_leaves_session_counterexample:
  "(case ExpectAny ''ready'' None 3 sample_session of
      Returns ((m, err), e') \<Rightarrow>
        m = [] \<and> err = Some ErrDeadlineExceeded \<and> f_closed (pty e') \<and> \<not> signalCh_open e'
        \<and> term_mode e' = oldState e'
    | _ \<Rightarrow> False)
   \<and> calls_of sample_session (ExpectAny ''ready'' None 3 sample_session)
       = [EvSetReadDeadline 4, EvReaderRead, EvCmdWait, EvPtyClose, EvSignalStop,
          EvCloseSignalCh, EvTermRestore]
   \<and> \<not> f_closed (pty sample_session) \<and> signalCh_open sample_session
   \<and> term_mode sample_session \<noteq> oldState sample_session
   \<and> blocked (ExpectAny ''ready'' None 3 idle_session)
   \<and> calls_of idle_session (ExpectAny ''ready'' None 3 idle_session)
       = [EvSetReadDeadline 4, EvReaderRead, EvCmdWait]"
  by (simp add: run_defs Let_def word_sless_alt idle_session_def)

text \<open>
  C1. With a timeout of zero, ExpectAny sets the read deadline to the instant of the call
  (it is the zero instant, which removes the deadline, only when the clock itself reads
  zero). In the sample session, where the line "ready" arrives four nanoseconds after the
  call, the call with timeout zero returns the timeout error, while the same line is
  handed out to a call with the default timeout.
\<close>

theorem ExpectAny_zero_timeout_sets_deadline_now:
  "f_deadline (reader (armed 0 e))
     = (if f_closed (reader e) then f_deadline (reader e)
        else if clock e = 0 then None else Some (clock e))
   \<and> f_deadline (reader (armed 0 sample_session)) = Some (clock sample_session)
   \<and> (case ExpectAny ''ready'' None 0 sample_session of
         Returns ((m, err), e') \<Rightarrow> m = [] \<and> err = Some ErrDeadlineExceeded
       | _ \<Rightarrow> False)
   \<and> IsTimeout ErrDeadlineExceeded
   \<and> Expect ''ready'' (- 1) sample_session = Returns ((True, None), after_ready)"
proof (intro conjI)
  show "f_deadline (reader (armed 0 e))
     = (if f_closed (reader e) then f_deadline (reader e)
        else if clock e = 0 then None else Some (clock e))"
    by (simp add: armed_def file_SetReadDeadline_def word_sless_alt Let_def)
  show "f_deadline (reader (armed 0 sample_session)) = Some (clock sample_session)"
    by (simp add: run_defs)
  show "case ExpectAny ''ready'' None 0 sample_session of
         Returns ((m, err), e') \<Rightarrow> m = [] \<and> err = Some ErrDeadlineExceeded
       | _ \<Rightarrow> False"
    by (simp add: run_defs Let_def)
  show "IsTimeout ErrDeadlineExceeded" by (simp add: IsTimeout_def)
  show "Expect ''ready'' (- 1) sample_session = Returns ((True, None), after_ready)"
    by (rule sample_session_Expect_ready)
qed

lemma first_match_nothing_supplied:
  assumes "re = None \<or> (\<exists>r. re = Some r \<and> (\<forall>l \<in> set ls. FindString r l = []))"
  shows "first_match [] re ls = None"
proof (rule first_match_None)
  show "\<forall>l \<in> set ls. test_line [] re l = None"
    using assms by (auto simp: test_line_def)
qed

text \<open>
  C10 (as amended). An empty literal is not tested, although every line contains it, and
  a regular expression counts only when the text it matched is not empty. So a call with
  an empty pattern and with no regular expression, or with one whose match is empty on
  every line handed out, never returns a match: when the call returns, it returns the
  empty string together with an error, which is the error of the scanner when it has one
  (the timeout, or any other failure of the read or of the scan) and "command exit"
  otherwise.
\<close>

theorem ExpectAny_nothing_supplied_never_matches:
  assumes "re = None \<or> (\<exists>r. re = Some r \<and> (\<forall>l \<in> set (drain (armed t e)). FindString r l = []))"
  shows "first_match [] re (drain (armed t e)) = None
    \<and> (\<forall>m err e'. ExpectAny [] re t e = Returns ((m, err), e') \<longrightarrow>
          m = [] \<and>
          err = (case scanner_Err (scanner e') of
                   Some x \<Rightarrow> Some x
                 | None \<Rightarrow> Some (ErrorsNew ''command exit'')))
    \<and> Contains text []"
proof (intro conjI allI impI)
  show fm: "first_match [] re (drain (armed t e)) = None"
    using assms by (rule first_match_nothing_supplied)
  show "m = []" and "err = (case scanner_Err (scanner e') of
                   Some x \<Rightarrow> Some x
                 | None \<Rightarrow> Some (ErrorsNew ''command exit''))"
    if "ExpectAny [] re t e = Returns ((m, err), e')" for m err e'
    using ExpectAny_no_match [OF fm that] by simp_all
  show "Contains text []" by (simp add: Contains_sublist)
qed

lemma lines_session_returns:
  "returned (ExpectAny [] None (- 1) lines_session)"
  "returned (ExpectAny [] (Some (\<lambda>s. [])) (- 1) lines_session)"
  by (simp_all add: run_defs Let_def lines_session_def)

theorem ExpectAny_nothing_supplied_never_matches_witness:
  "(case ExpectAny [] None (- 1) lines_session of
      Returns ((m, err), e') \<Rightarrow>
        m = [] \<and> err = (case scanner_Err (scanner e') of
                          Some x \<Rightarrow> Some x
                        | None \<Rightarrow> Some (ErrorsNew ''command exit''))
    | _ \<Rightarrow> False)
   \<and> FindString (\<lambda>s. []) ''one'' = [] \<and> FindString (\<lambda>s. []) ''two ready'' = []
   \<and> FindString (\<lambda>s. []) ''three'' = []
   \<and> (case ExpectAny [] (Some (\<lambda>s. [])) (- 1) lines_session of
         Returns ((m, err), e') \<Rightarrow>
           m = [] \<and> err = (case scanner_Err (scanner e') of
                             Some x \<Rightarrow> Some x
                           | None \<Rightarrow> Some (ErrorsNew ''command exit''))
       | _ \<Rightarrow> False)"
proof -
  have h1: "(None :: Regexp option) = None
      \<or> (\<exists>r. (None :: Regexp option) = Some r
            \<and> (\<forall>l \<in> set (drain (armed (- 1) lines_session)). FindString r l = []))"
    by simp
  have h2: "Some (\<lambda>s. []) = (None :: Regexp option)
      \<or> (\<exists>r. Some (\<lambda>s. []) = Some r
            \<and> (\<forall>l \<in> set (drain (armed (- 1) lines_session)). FindString r l = []))"
    by (simp add: FindString_def)
  note t1 = ExpectAny_nothing_supplied_never_matches [OF h1]
  note t2 = ExpectAny_nothing_supplied_never_matches [OF h2]
  have a: "(case ExpectAny [] None (- 1) lines_session of
      Returns ((m, err), e') \<Rightarrow>
        m = [] \<and> err = (case scanner_Err (scanner e') of
                          Some x \<Rightarrow> Some x
                        | None \<Rightarrow> Some (ErrorsNew ''command exit''))
    | _ \<Rightarrow> False)"
    using t1 lines_session_returns(1)
    by (cases "ExpectAny [] None (- 1) lines_session") auto
  have b: "(case ExpectAny [] (Some (\<lambda>s. [])) (- 1) lines_session of
         Returns ((m, err), e') \<Rightarrow>
           m = [] \<and> err = (case scanner_Err (scanner e') of
                             Some x \<Rightarrow> Some x
                           | None \<Rightarrow> Some (ErrorsNew ''command exit''))
       | _ \<Rightarrow> False)"
    using t2 lines_session_returns(2)
    by (cases "ExpectAny [] (Some (\<lambda>s. [])) (- 1) lines_session") auto
  have c: "FindString (\<lambda>s. []) ''one'' = []" "FindString (\<lambda>s. []) ''two ready'' = []"
    "FindString (\<lambda>s. []) ''three'' = []"
    by (simp_all add: FindString_def)
  show ?thesis using a b c by (intro conjI)
qed

text \<open>
  The claim C10 as stated leaves only the timeout and the end of the stream as the ways
  in which such a call ends. In a session whose scanner has been detached by Interact, the
  read end being closed, the call with an empty pattern and no regular expression returns
  the error of the closed file, which is neither.
\<close>

theorem ExpectAny_ends_timeout_or_exit_counterexample:
  "f_closed (reader detached_session)
   \<and> (case ExpectAny [] None 3 detached_session of
         Returns ((m, err), e') \<Rightarrow> m = [] \<and> err = Some ErrClosed
       | _ \<Rightarrow> False)
   \<and> \<not> IsTimeout ErrClosed
   \<and> ErrClosed \<noteq> ErrorsNew ''command exit''"
  by (simp add: run_defs Let_def word_sless_alt detached_session_def IsTimeout_def)

end
